theory Spec2Isabelle
  imports Complex_Main
begin

section \<open>The encoder image processor of surya (surya/common/donut/processor.py)\<close>

text \<open>
  The development embeds \<^verbatim>\<open>SuryaEncoderImageProcessor\<close>: its constructor, the
  class methods \<^verbatim>\<open>numpy_resize\<close>, \<^verbatim>\<open>pad_image\<close>, \<^verbatim>\<open>align_long_axis\<close>,
  \<^verbatim>\<open>normalize\<close> and the pipeline \<^verbatim>\<open>process_inner\<close>. The functions of numpy, OpenCV
  and transformers that the file calls are modelled by what they document: the shape and
  dtype they return, the index each output sample is read from, and the exceptions they
  raise.
\<close>

subsection \<open>Exceptions as values\<close>

datatype error =
  AssertionError | IndexError | ValueError | TypeError | OverflowError | CvError

definition ebind :: "error + 'a \<Rightarrow> ('a \<Rightarrow> error + 'b) \<Rightarrow> error + 'b" where
  "ebind r f = (case r of Inl e \<Rightarrow> Inl e | Inr x \<Rightarrow> f x)"

text \<open>A list comprehension whose body may raise: left to right, the first exception wins.\<close>

fun map_err :: "('a \<Rightarrow> error + 'b) \<Rightarrow> 'a list \<Rightarrow> error + 'b list" where
  "map_err f [] = Inr []"
| "map_err f (x # xs) = ebind (f x) (\<lambda>y. ebind (map_err f xs) (\<lambda>ys. Inr (y # ys)))"

subsection \<open>Arrays\<close>

text \<open>
  An \<^verbatim>\<open>np.ndarray\<close> is its shape, its dtype and its samples, read by a full index (one
  position per axis). Samples are real numbers; the rounding that a dtype imposes is the
  parameter \<open>float_round\<close> of the environment below, so that the order of the casts of
  the source stays visible.
\<close>

datatype dtype = UInt8 | Float32 | Float64

record ndarray =
  shape :: "nat list"
  dtype :: dtype
  data :: "nat list \<Rightarrow> real"

definition in_bounds :: "nat list \<Rightarrow> nat list \<Rightarrow> bool" where
  "in_bounds shp idx = list_all2 (\<lambda>i n. i < n) idx shp"

text \<open>\<^verbatim>\<open>a.shape[i]\<close> for \<open>i \<ge> 0\<close>: IndexError past the last axis.\<close>

definition shape_at :: "ndarray \<Rightarrow> nat \<Rightarrow> error + nat" where
  "shape_at a i = (if i < length (shape a) then Inr (shape a ! i) else Inl IndexError)"

text \<open>
  A Python number, as a pad value is one: an \<^verbatim>\<open>int\<close> or a \<^verbatim>\<open>float\<close>. numpy treats
  the two differently when it stores them into an integer array.
\<close>

datatype pynum = PyInt int | PyFloat real

definition py_real :: "pynum \<Rightarrow> real" where
  "py_real v = (case v of PyInt n \<Rightarrow> of_int n | PyFloat x \<Rightarrow> x)"

text \<open>
  What the pipeline takes from outside the file: the resampling arithmetic of
  \<^verbatim>\<open>cv2.resize\<close> (by interpolation flag, source array and target height and width, the
  sample at each index), the rounding of a real number to a dtype, and
  \<^verbatim>\<open>settings.RECOGNITION_PAD_VALUE\<close>. Arrays are taken to fit in memory: an allocation
  that fails is outside the model.
\<close>

record env =
  cv2_resample :: "int \<Rightarrow> ndarray \<Rightarrow> nat \<times> nat \<Rightarrow> nat list \<Rightarrow> real"
  float_round :: "dtype \<Rightarrow> real \<Rightarrow> real"
  RECOGNITION_PAD_VALUE :: pynum

subsection \<open>numpy: astype, flip, transpose, rot90, pad\<close>

definition astype :: "env \<Rightarrow> ndarray \<Rightarrow> dtype \<Rightarrow> ndarray" where
  "astype e a dt = a\<lparr>dtype := dt, data := (\<lambda>idx. float_round e dt (data a idx))\<rparr>"

text \<open>
  \<^verbatim>\<open>array * python_float\<close>: a floating array keeps its dtype, an integer array goes to
  float64; each product is rounded to the result dtype.
\<close>

definition mul_scalar :: "env \<Rightarrow> ndarray \<Rightarrow> real \<Rightarrow> ndarray" where
  "mul_scalar e a f =
     (let dt = (if dtype a = UInt8 then Float64 else dtype a)
      in a\<lparr>dtype := dt, data := (\<lambda>idx. float_round e dt (data a idx * f))\<rparr>)"

text \<open>\<^verbatim>\<open>np.flip(m, axis)\<close>: position \<open>i\<close> of the axis reads position \<open>n - 1 - i\<close>.\<close>

definition np_flip :: "ndarray \<Rightarrow> nat \<Rightarrow> ndarray" where
  "np_flip m axis =
     m\<lparr>data := (\<lambda>idx. data m (idx[axis := shape m ! axis - 1 - idx ! axis]))\<rparr>"

fun index_of :: "nat list \<Rightarrow> nat \<Rightarrow> nat" where
  "index_of [] d = 0"
| "index_of (a # as) d = (if a = d then 0 else Suc (index_of as d))"

text \<open>
  \<^verbatim>\<open>np.transpose(m, axes)\<close>: axis \<open>t\<close> of the result is axis \<open>axes[t]\<close> of \<open>m\<close>;
  ValueError unless \<open>axes\<close> is a permutation of the axes of \<open>m\<close>.
\<close>

definition np_transpose :: "ndarray \<Rightarrow> nat list \<Rightarrow> error + ndarray" where
  "np_transpose m axes =
     (let n = length (shape m) in
      if length axes \<noteq> n \<or> \<not> list_all (\<lambda>a. a < n) axes \<or> \<not> distinct axes
      then Inl ValueError
      else Inr (m\<lparr>shape := map (\<lambda>a. shape m ! a) axes,
                   data := (\<lambda>idx. data m (map (\<lambda>d. idx ! index_of axes d) [0..<n]))\<rparr>))"

text \<open>
  \<^verbatim>\<open>np.rot90(m, k)\<close> with the default \<^verbatim>\<open>axes=(0, 1)\<close>, as numpy writes it:
  \<^verbatim>\<open>
    k %= 4
    if k == 0: return m[:]
    if k == 2: return flip(flip(m, axes[0]), axes[1])
    axes_list = arange(0, m.ndim)
    (axes_list[axes[0]], axes_list[axes[1]]) = (axes_list[axes[1]], axes_list[axes[0]])
    if k == 1: return transpose(flip(m, axes[1]), axes_list)
    else:      return flip(transpose(m, axes_list), axes[1])
  \<close>
  ValueError below two axes.
\<close>

definition np_rot90 :: "ndarray \<Rightarrow> int \<Rightarrow> error + ndarray" where
  "np_rot90 m k =
     (if length (shape m) < 2 then Inl ValueError
      else
        let k' = k mod 4;
            axes_list = ([0..<length (shape m)])[0 := 1, 1 := 0]
        in if k' = 0 then Inr m
           else if k' = 2 then Inr (np_flip (np_flip m 0) 1)
           else if k' = 1 then np_transpose (np_flip m 1) axes_list
           else ebind (np_transpose m axes_list) (\<lambda>t. Inr (np_flip t 1)))"

text \<open>
  Storing a Python number into an array: numpy refuses, with an OverflowError, a Python
  \<^verbatim>\<open>int\<close> that the integer dtype of the array cannot hold; a Python \<^verbatim>\<open>float\<close> is cast.
  (An \<^verbatim>\<open>int\<close> beyond the range of a C double, which numpy refuses for a floating array
  as well, is outside the model.)
\<close>

definition constant_overflows :: "dtype \<Rightarrow> pynum \<Rightarrow> bool" where
  "constant_overflows dt v =
     (case v of PyInt n \<Rightarrow> dt = UInt8 \<and> (n < 0 \<or> 255 < n) | PyFloat x \<Rightarrow> False)"

text \<open>
  \<^verbatim>\<open>np.pad(m, pad_width, mode="constant", constant_values=v)\<close> with one
  \<open>(before, after)\<close> pair per axis; ValueError when the pairs do not match the axes,
  OverflowError when the constant cannot be stored (the constant is stored on every axis,
  whatever the widths).
\<close>

definition np_pad :: "env \<Rightarrow> ndarray \<Rightarrow> (nat \<times> nat) list \<Rightarrow> pynum \<Rightarrow> error + ndarray" where
  "np_pad e m pads v =
     (if length pads \<noteq> length (shape m) then Inl ValueError
      else if constant_overflows (dtype m) v then Inl OverflowError
      else Inr (m\<lparr>shape := map2 (\<lambda>n (b, a). b + n + a) (shape m) pads,
                   data := (\<lambda>idx.
                     if list_all2 (\<lambda>i (n, (b, a)). b \<le> i \<and> i < b + n) idx (zip (shape m) pads)
                     then data m (map2 (\<lambda>i (b, a). i - b) idx pads)
                     else float_round e (dtype m) (py_real v))\<rparr>))"

subsection \<open>OpenCV and PIL: the interpolation flags and resize\<close>

text \<open>
  Both libraries name their kernels by small integers, and the enumerations differ:
  \<^verbatim>\<open>cv2.INTER_LINEAR = 1\<close>, \<^verbatim>\<open>cv2.INTER_CUBIC = 2\<close>, \<^verbatim>\<open>cv2.INTER_LANCZOS4 = 4\<close>,
  while \<^verbatim>\<open>PIL.Image.Resampling.BILINEAR = 2\<close> (an IntEnum, which \<^verbatim>\<open>cv2.resize\<close> reads
  as the integer it is).
\<close>

definition INTER_LINEAR :: int where
  "INTER_LINEAR = 1"

definition INTER_CUBIC :: int where
  "INTER_CUBIC = 2"

definition INTER_LANCZOS4 :: int where
  "INTER_LANCZOS4 = 4"

definition Resampling_BILINEAR :: int where
  "Resampling_BILINEAR = 2"

text \<open>
  The flags \<^verbatim>\<open>cv2.resize\<close> knows: \<^verbatim>\<open>INTER_NEAREST = 0\<close> to \<^verbatim>\<open>INTER_NEAREST_EXACT = 6\<close>.
  The width and height of the target are C ints.
\<close>

definition known_interpolation :: "int \<Rightarrow> bool" where
  "known_interpolation flag = (0 \<le> flag \<and> flag \<le> 6)"

definition INT_MAX :: int where
  "INT_MAX = 2147483647"

text \<open>
  \<^verbatim>\<open>cv2.resize(src, (w, h), interpolation=flag)\<close>: the result has \<open>h\<close> rows and \<open>w\<close>
  columns and the dtype of \<open>src\<close>. Of a three-axis source the third axis is the channels:
  a single channel is dropped, up to 512 channels are kept. A source of fewer than two
  axes is read as a single column. An empty source, a target side that is not positive or
  does not fit a C int, an unknown flag and a source of more than three axes are each a
  \<^verbatim>\<open>cv2.error\<close>. The samples are those of the kernel the flag selects. (A source with a
  side beyond a C int is outside the model.)
\<close>

definition cv2_resize :: "env \<Rightarrow> ndarray \<Rightarrow> int \<times> int \<Rightarrow> int \<Rightarrow> error + ndarray" where
  "cv2_resize e src dsize interpolation =
     (case dsize of (w, h) \<Rightarrow>
        if w \<le> 0 \<or> h \<le> 0 \<or> INT_MAX < w \<or> INT_MAX < h then Inl CvError
        else if \<not> known_interpolation interpolation then Inl CvError
        else
          let out = (\<lambda>shp. Inr \<lparr>shape = shp, dtype = dtype src,
                                  data = cv2_resample e interpolation src (nat h, nat w)\<rparr>)
          in (case shape src of
                [] \<Rightarrow> out [nat h, nat w]
              | [n] \<Rightarrow> if n = 0 then Inl CvError else out [nat h, nat w]
              | [sh, sw] \<Rightarrow>
                  if sh = 0 \<or> sw = 0 then Inl CvError else out [nat h, nat w]
              | [sh, sw, c] \<Rightarrow>
                  if sh = 0 \<or> sw = 0 \<or> c = 0 \<or> 512 < c then Inl CvError
                  else if c = 1 then out [nat h, nat w]
                  else out [nat h, nat w, c]
              | _ \<Rightarrow> Inl CvError))"

subsection \<open>transformers: channel layout, image size, pad, normalize, the ImageNet constants\<close>

datatype ChannelDimension = FIRST | LAST

text \<open>
  \<^verbatim>\<open>get_image_size(image, channel_dim)\<close> returns \<^verbatim>\<open>shape[-2], shape[-1]\<close> for
  channel-first and \<^verbatim>\<open>shape[-3], shape[-2]\<close> for channel-last arrays.
\<close>

definition get_image_size :: "ndarray \<Rightarrow> ChannelDimension \<Rightarrow> error + nat \<times> nat" where
  "get_image_size img channel_dim =
     (let n = length (shape img) in
      case channel_dim of
        FIRST \<Rightarrow> if n < 2 then Inl IndexError
                 else Inr (shape img ! (n - 2), shape img ! (n - 1))
      | LAST \<Rightarrow> if n < 3 then Inl IndexError
                else Inr (shape img ! (n - 3), shape img ! (n - 2)))"

text \<open>
  \<^verbatim>\<open>to_channel_dimension_format(image, channel_dim, input_channel_dim)\<close>: nothing to do
  when no target layout is asked for or the layouts agree, a transpose otherwise.
\<close>

definition to_channel_dimension_format ::
    "ndarray \<Rightarrow> ChannelDimension option \<Rightarrow> ChannelDimension \<Rightarrow> error + ndarray" where
  "to_channel_dimension_format img channel_dim input_channel_dim =
     (case channel_dim of
        None \<Rightarrow> Inr img
      | Some target \<Rightarrow>
          if target = input_channel_dim then Inr img
          else if target = FIRST then np_transpose img [2, 0, 1]
          else np_transpose img [1, 2, 0])"

text \<open>
  \<^verbatim>\<open>pad(image, ((top, bottom), (left, right)), constant_values=v, ...)\<close> in constant
  mode: the two pairs are completed by \<open>(0, 0)\<close> for the channel axis, in front for a
  channel-first image and behind for a channel-last one, by one more \<open>(0, 0)\<close> in front
  for the batch axis of a four-axis array, and handed to \<^verbatim>\<open>np.pad\<close>.
\<close>

definition transformers_pad ::
    "env \<Rightarrow> ndarray \<Rightarrow> (nat \<times> nat) \<times> (nat \<times> nat) \<Rightarrow> pynum \<Rightarrow> ChannelDimension option \<Rightarrow>
     ChannelDimension \<Rightarrow> error + ndarray" where
  "transformers_pad e img padding constant_values data_format input_data_format =
     (case padding of (tb, lr) \<Rightarrow>
        let pads = (if input_data_format = FIRST then [(0, 0), tb, lr] else [tb, lr, (0, 0)]);
            pads = (if length (shape img) = 4 then (0, 0) # pads else pads)
        in ebind (np_pad e img pads constant_values)
             (\<lambda>padded. to_channel_dimension_format padded data_format input_data_format))"

text \<open>A mean or standard deviation is one float or a sequence of floats.\<close>

datatype stat = Scalar real | Seq "real list"

text \<open>
  \<^verbatim>\<open>normalize(image, mean, std, input_data_format=...)\<close> on a three-axis array: a
  sequence must have one entry per channel (ValueError otherwise), a scalar is repeated;
  an integer image is cast to float32, a floating one keeps its dtype; mean and std are
  cast to that dtype, and each sample becomes \<open>(x - mean[c]) / std[c]\<close>, rounded after
  each operation. \<^verbatim>\<open>process_inner\<close> hands it three-axis arrays only (the transpose of
  \<^verbatim>\<open>numpy_resize\<close> admits no other rank); the model answers ValueError for any other
  rank and does not describe the library there. Division by a zero std, which numpy
  answers with inf or nan, is HOL's division here.
\<close>

definition expand_stat :: "stat \<Rightarrow> nat \<Rightarrow> error + real list" where
  "expand_stat s num_channels =
     (case s of
        Scalar x \<Rightarrow> Inr (replicate num_channels x)
      | Seq xs \<Rightarrow> if length xs \<noteq> num_channels then Inl ValueError else Inr xs)"

definition transformers_normalize ::
    "env \<Rightarrow> ndarray \<Rightarrow> stat \<Rightarrow> stat \<Rightarrow> ChannelDimension option \<Rightarrow> ChannelDimension \<Rightarrow>
     error + ndarray" where
  "transformers_normalize e img mean std data_format input_data_format =
     (if length (shape img) \<noteq> 3 then Inl ValueError
      else
        let channel_axis = (if input_data_format = FIRST then 0 else 2);
            num_channels = shape img ! channel_axis;
            img = (if dtype img = UInt8 then astype e img Float32 else img);
            dt = dtype img
        in ebind (expand_stat mean num_channels) (\<lambda>ms.
           ebind (expand_stat std num_channels) (\<lambda>ss.
           ebind (to_channel_dimension_format
                    (img\<lparr>data := (\<lambda>idx.
                        let c = idx ! channel_axis
                        in float_round e dt
                             (float_round e dt (data img idx - float_round e dt (ms ! c))
                                / float_round e dt (ss ! c)))\<rparr>)
                    data_format input_data_format)
             Inr)))"

text \<open>
  \<^verbatim>\<open>transformers.utils.constants\<close> holds two pairs of ImageNet statistics; the file
  imports the STANDARD pair.
\<close>

definition IMAGENET_DEFAULT_MEAN :: stat where
  "IMAGENET_DEFAULT_MEAN = Seq [485 / 1000, 456 / 1000, 406 / 1000]"

definition IMAGENET_DEFAULT_STD :: stat where
  "IMAGENET_DEFAULT_STD = Seq [229 / 1000, 224 / 1000, 225 / 1000]"

definition IMAGENET_STANDARD_MEAN :: stat where
  "IMAGENET_STANDARD_MEAN = Seq [1 / 2, 1 / 2, 1 / 2]"

definition IMAGENET_STANDARD_STD :: stat where
  "IMAGENET_STANDARD_STD = Seq [1 / 2, 1 / 2, 1 / 2]"

subsection \<open>The processor and its constructor\<close>

text \<open>
  \<^verbatim>\<open>size\<close> arguments are dictionaries with the keys \<^verbatim>\<open>"width"\<close> and \<^verbatim>\<open>"height"\<close>.
  \<^verbatim>\<open>max_size\<close> is \<^verbatim>\<open>None\<close> unless the caller gives one, and subscripting \<^verbatim>\<open>None\<close> is a
  TypeError.
\<close>

record size_dict =
  width :: int
  height :: int

record processor =
  max_size :: "size_dict option"
  do_align_long_axis :: bool
  resample :: int
  rescale_factor :: real
  image_mean :: stat
  image_std :: stat

text \<open>
  \<^verbatim>\<open>__init__(max_size=None, align_long_axis=False, rescale_factor=1 / 255,
  image_mean=None, image_std=None)\<close>; \<open>None\<close> stands for an argument left out.
  (\<^verbatim>\<open>patch_size\<close> is stored and never read by the methods below.)
\<close>

definition init ::
    "size_dict option \<Rightarrow> bool option \<Rightarrow> real option \<Rightarrow> stat option \<Rightarrow> stat option \<Rightarrow> processor" where
  "init max_size_arg align_long_axis_arg rescale_factor_arg image_mean_arg image_std_arg =
     \<lparr>max_size = max_size_arg,
      do_align_long_axis = (case align_long_axis_arg of None \<Rightarrow> False | Some b \<Rightarrow> b),
      resample = Resampling_BILINEAR,
      rescale_factor = (case rescale_factor_arg of None \<Rightarrow> 1 / 255 | Some f \<Rightarrow> f),
      image_mean = (case image_mean_arg of Some m \<Rightarrow> m | None \<Rightarrow> IMAGENET_STANDARD_MEAN),
      image_std = (case image_std_arg of Some s \<Rightarrow> s | None \<Rightarrow> IMAGENET_STANDARD_STD)\<rparr>"

subsection \<open>The class methods\<close>

text \<open>\<^verbatim>\<open>numpy_resize(image, size, interpolation=cv2.INTER_LANCZOS4)\<close>, lines 50 to 59.\<close>

definition numpy_resize ::
    "env \<Rightarrow> ndarray \<Rightarrow> size_dict option \<Rightarrow> int option \<Rightarrow> error + ndarray" where
  "numpy_resize e img sz interpolation_arg =
     (let interpolation = (case interpolation_arg of None \<Rightarrow> INTER_LANCZOS4 | Some i \<Rightarrow> i)
      in case sz of
           None \<Rightarrow> Inl TypeError
         | Some s \<Rightarrow>
             let max_width = width s; max_height = height s
             in ebind (cv2_resize e img (max_width, max_height) interpolation)
                  (\<lambda>resized_image. np_transpose resized_image [2, 0, 1]))"

text \<open>
  Lines 150 to 156 of \<^verbatim>\<open>pad_image\<close>: the tuple
  \<^verbatim>\<open>((pad_top, pad_bottom), (pad_left, pad_right))\<close> from the two deltas.
\<close>

definition pad_image_padding :: "int \<Rightarrow> int \<Rightarrow> (int \<times> int) \<times> (int \<times> int)" where
  "pad_image_padding delta_height delta_width =
     (let pad_top = delta_height div 2;
          pad_left = delta_width div 2;
          pad_bottom = delta_height - pad_top;
          pad_right = delta_width - pad_left
      in ((pad_top, pad_bottom), (pad_left, pad_right)))"

text \<open>\<^verbatim>\<open>pad_image(image, size, data_format, input_data_format, pad_value)\<close>, lines 133 to 163.\<close>

definition pad_image ::
    "env \<Rightarrow> ndarray \<Rightarrow> size_dict option \<Rightarrow> ChannelDimension option \<Rightarrow> ChannelDimension \<Rightarrow>
     pynum \<Rightarrow> error + ndarray" where
  "pad_image e img sz data_format input_data_format pad_value =
     (case sz of
        None \<Rightarrow> Inl TypeError
      | Some s \<Rightarrow>
          let output_height = height s; output_width = width s
          in ebind (get_image_size img input_data_format) (\<lambda>(input_height, input_width).
               let delta_width = output_width - int input_width;
                   delta_height = output_height - int input_height
               in if \<not> (delta_width \<ge> 0 \<and> delta_height \<ge> 0) then Inl AssertionError
                  else case pad_image_padding delta_height delta_width of
                         ((pad_top, pad_bottom), (pad_left, pad_right)) \<Rightarrow>
                           transformers_pad e img
                             ((nat pad_top, nat pad_bottom), (nat pad_left, nat pad_right))
                             pad_value data_format input_data_format))"

text \<open>\<^verbatim>\<open>align_long_axis(image, size)\<close>, lines 165 to 177.\<close>

definition align_long_axis :: "ndarray \<Rightarrow> size_dict option \<Rightarrow> error + ndarray" where
  "align_long_axis img sz =
     (case shape img of
        input_height # input_width # _ \<Rightarrow>
          (case sz of
             None \<Rightarrow> Inl TypeError
           | Some s \<Rightarrow>
               let output_height = height s; output_width = width s
               in if (output_width < output_height \<and> int input_width > int input_height) \<or>
                     (output_width > output_height \<and> int input_width < int input_height)
                  then np_rot90 img 3
                  else Inr img)
      | _ \<Rightarrow> Inl ValueError)"

text \<open>\<^verbatim>\<open>normalize(image, mean, std, data_format, input_data_format)\<close>, lines 179 to 196.\<close>

definition normalize_method ::
    "env \<Rightarrow> ndarray \<Rightarrow> stat \<Rightarrow> stat \<Rightarrow> ChannelDimension option \<Rightarrow> ChannelDimension \<Rightarrow>
     error + ndarray" where
  "normalize_method e img mean std data_format input_data_format =
     transformers_normalize e img mean std data_format input_data_format"

subsection \<open>The pipeline\<close>

text \<open>
  The loop of lines 74 and 75: \<^verbatim>\<open>assert img.shape[1] >= img.shape[0]\<close> for each image
  in turn.
\<close>

fun assert_wider :: "ndarray list \<Rightarrow> error + unit" where
  "assert_wider [] = Inr ()"
| "assert_wider (img # rest) =
     ebind (shape_at img 1) (\<lambda>w.
     ebind (shape_at img 0) (\<lambda>h.
       if w \<ge> h then assert_wider rest else Inl AssertionError))"

text \<open>Lines 64 to 75: the alignment block, skipped when the flag is off.\<close>

definition process_inner_align :: "processor \<Rightarrow> ndarray list \<Rightarrow> error + ndarray list" where
  "process_inner_align self images =
     (if do_align_long_axis self
      then ebind (map_err (\<lambda>img. align_long_axis img (max_size self)) images) (\<lambda>images.
           ebind (assert_wider images) (\<lambda>_. Inr images))
      else Inr images)"

text \<open>Lines 78 to 82: resize each image, then assert on the first.\<close>

definition process_inner_resize ::
    "env \<Rightarrow> processor \<Rightarrow> ndarray list \<Rightarrow> error + ndarray list" where
  "process_inner_resize e self images =
     ebind (map_err (\<lambda>img. numpy_resize e img (max_size self) (Some (resample self))) images)
       (\<lambda>images.
          case images of
            [] \<Rightarrow> Inl IndexError
          | first # _ \<Rightarrow>
              ebind (shape_at first 0) (\<lambda>c.
                if c = 3 then Inr images else Inl AssertionError))"

text \<open>Line 85: the cast to float32.\<close>

definition process_inner_cast :: "env \<Rightarrow> ndarray list \<Rightarrow> ndarray list" where
  "process_inner_cast e images = map (\<lambda>img. astype e img Float32) images"

text \<open>Lines 89 to 98: pad each image to \<^verbatim>\<open>max_size\<close>.\<close>

definition process_inner_pad :: "env \<Rightarrow> processor \<Rightarrow> ndarray list \<Rightarrow> error + ndarray list" where
  "process_inner_pad e self images =
     map_err (\<lambda>img. pad_image e img (max_size self) None FIRST (RECOGNITION_PAD_VALUE e)) images"

text \<open>
  Lines 101 to 104:
  \<^verbatim>\<open>(images[idx].astype(np.float64) * self.rescale_factor).astype(np.float32)\<close>.
\<close>

definition rescale :: "env \<Rightarrow> processor \<Rightarrow> ndarray \<Rightarrow> ndarray" where
  "rescale e self img = astype e (mul_scalar e (astype e img Float64) (rescale_factor self)) Float32"

definition process_inner_rescale :: "env \<Rightarrow> processor \<Rightarrow> ndarray list \<Rightarrow> ndarray list" where
  "process_inner_rescale e self images = map (rescale e self) images"

text \<open>Lines 106 to 114: normalize each image.\<close>

definition process_inner_normalize ::
    "env \<Rightarrow> processor \<Rightarrow> ndarray list \<Rightarrow> error + ndarray list" where
  "process_inner_normalize e self images =
     map_err (\<lambda>img. normalize_method e img (image_mean self) (image_std self) None FIRST) images"

text \<open>
  \<^verbatim>\<open>process_inner(images)\<close>, lines 61 to 116. Line 62 reads \<^verbatim>\<open>images[0].shape[2]\<close>:
  IndexError on an empty list or a first array of fewer than three axes, AssertionError
  when the first image does not have three channels.
\<close>

definition process_inner :: "env \<Rightarrow> processor \<Rightarrow> ndarray list \<Rightarrow> error + ndarray list" where
  "process_inner e self images =
     (case images of
        [] \<Rightarrow> Inl IndexError
      | first # _ \<Rightarrow>
          ebind (shape_at first 2) (\<lambda>c.
            if c \<noteq> 3 then Inl AssertionError
            else ebind (process_inner_align self images) (\<lambda>images.
                 ebind (process_inner_resize e self images) (\<lambda>images.
                 ebind (process_inner_pad e self (process_inner_cast e images)) (\<lambda>images.
                 process_inner_normalize e self (process_inner_rescale e self images))))))"

subsection \<open>Quarter turns, as the specification words them\<close>

text \<open>
  Rows run from top to bottom and columns from left to right. A quarter turn clockwise
  takes the left column, read bottom-up, to the top row; a quarter turn counter-clockwise
  takes the right column, read top-down, to the top row. Both swap height and width and
  leave the remaining axes (the channels) alone.
\<close>

definition rotate_cw :: "ndarray \<Rightarrow> ndarray" where
  "rotate_cw m =
     (case shape m of
        h # w # rest \<Rightarrow>
          m\<lparr>shape := w # h # rest,
            data := (\<lambda>idx. case idx of
                               i # j # ts \<Rightarrow> data m ((h - 1 - j) # i # ts)
                             | _ \<Rightarrow> 0)\<rparr>
      | _ \<Rightarrow> m)"

definition rotate_ccw :: "ndarray \<Rightarrow> ndarray" where
  "rotate_ccw m =
     (case shape m of
        h # w # rest \<Rightarrow>
          m\<lparr>shape := w # h # rest,
            data := (\<lambda>idx. case idx of
                               i # j # ts \<Rightarrow> data m (j # (w - 1 - i) # ts)
                             | _ \<Rightarrow> 0)\<rparr>
      | _ \<Rightarrow> m)"

text \<open>Two arrays are the same array when shape, dtype and every sample in bounds agree.\<close>

definition same_array :: "ndarray \<Rightarrow> ndarray \<Rightarrow> bool" where
  "same_array a b =
     (shape a = shape b \<and> dtype a = dtype b \<and>
      (\<forall>idx. in_bounds (shape a) idx \<longrightarrow> data a idx = data b idx))"

subsection \<open>Predicates of the statements\<close>

text \<open>
  A valid input image: three axes, channels last, three channels, a positive height and
  width that fit a C int.
\<close>

definition valid_image :: "ndarray \<Rightarrow> bool" where
  "valid_image img =
     (case shape img of
        [h, w, c] \<Rightarrow> 0 < h \<and> 0 < w \<and> int h \<le> INT_MAX \<and> int w \<le> INT_MAX \<and> c = 3
      | _ \<Rightarrow> False)"

text \<open>
  A target canvas the libraries can hold: each side positive and within a C int, and the
  float64 copy of a three-channel canvas (the largest array the pipeline makes of it, 24
  bytes a pixel) within the \<open>2 ^ 63\<close> bytes of a numpy array.
\<close>

definition target_fits :: "size_dict \<Rightarrow> bool" where
  "target_fits s =
     (0 < width s \<and> width s \<le> INT_MAX \<and> 0 < height s \<and> height s \<le> INT_MAX \<and>
      24 * (width s * height s) < 2 ^ 63)"

text \<open>
  A pad value that an array of the dtype stores: any float; an int within 0 to 255 for
  uint8, within the range of a C double for a floating array.
\<close>

definition pad_value_fits :: "dtype \<Rightarrow> pynum \<Rightarrow> bool" where
  "pad_value_fits dt v =
     (case v of
        PyFloat x \<Rightarrow> True
      | PyInt n \<Rightarrow> if dt = UInt8 then 0 \<le> n \<and> n \<le> 255 else \<bar>n\<bar> < 2 ^ 1023)"

text \<open>
  The images that are at least as wide as tall once \<^verbatim>\<open>align_long_axis\<close> has run: any
  image under a landscape target, a square image, and a landscape image under a square
  target.
\<close>

definition aligned_wide :: "size_dict \<Rightarrow> ndarray \<Rightarrow> bool" where
  "aligned_wide s img =
     (case shape img of
        h # w # _ \<Rightarrow> height s < width s \<or> h = w \<or> (width s = height s \<and> h < w)
      | _ \<Rightarrow> False)"

text \<open>A mean or std that fits three channels: a scalar, or a sequence of three.\<close>

definition stat_fits :: "stat \<Rightarrow> bool" where
  "stat_fits st = (case st of Scalar x \<Rightarrow> True | Seq xs \<Rightarrow> length xs = 3)"

text \<open>Every channel's statistic within \<open>tol\<close> of the target's.\<close>

definition approx_stat :: "stat \<Rightarrow> real list \<Rightarrow> real \<Rightarrow> bool" where
  "approx_stat st target tol =
     (case st of
        Scalar x \<Rightarrow> list_all (\<lambda>t. \<bar>x - t\<bar> \<le> tol) target
      | Seq xs \<Rightarrow> list_all2 (\<lambda>x t. \<bar>x - t\<bar> \<le> tol) xs target)"

subsection \<open>Concrete inputs\<close>

text \<open>
  An environment whose resampler answers with the interpolation flag it was called with,
  whose rounding is exact and whose pad value is 255; the same environment with a
  resampler that answers 0 for the Lanczos flag; and small arrays: a channel-first image,
  a strip of one row and two pixels whose samples are \<open>10 * column + channel\<close>, a portrait
  image, an RGB and an RGBA image.
\<close>

definition probe_env :: env where
  "probe_env = \<lparr>cv2_resample = (\<lambda>flag src hw idx. of_int flag), float_round = (\<lambda>dt x. x),
     RECOGNITION_PAD_VALUE = PyInt 255\<rparr>"

definition lanczos_blind_env :: env where
  "lanczos_blind_env = probe_env\<lparr>cv2_resample :=
     (\<lambda>flag src hw idx. if flag = INTER_LANCZOS4 then 0 else of_int flag)\<rparr>"

definition chw_image :: ndarray where
  "chw_image = \<lparr>shape = [3, 2, 2], dtype = Float32, data = (\<lambda>idx. 7)\<rparr>"

definition strip_image :: ndarray where
  "strip_image = \<lparr>shape = [1, 2, 3], dtype = UInt8,
     data = (\<lambda>idx. case idx of [i, j, c] \<Rightarrow> real (10 * j + c) | _ \<Rightarrow> 0)\<rparr>"

definition tall_image :: ndarray where
  "tall_image = \<lparr>shape = [2, 1, 3], dtype = UInt8, data = (\<lambda>idx. 0)\<rparr>"

definition rgb_image :: ndarray where
  "rgb_image = \<lparr>shape = [2, 2, 3], dtype = UInt8, data = (\<lambda>idx. 0)\<rparr>"

definition rgba_image :: ndarray where
  "rgba_image = \<lparr>shape = [2, 2, 4], dtype = UInt8, data = (\<lambda>idx. 0)\<rparr>"

section \<open>Properties\<close>

subsection \<open>The exception monad and list comprehensions\<close>

lemma ebind_Inr [simp]: "ebind (Inr x) f = f x"
  by (simp add: ebind_def)

lemma ebind_Inl [simp]: "ebind (Inl err) f = Inl err"
  by (simp add: ebind_def)

lemma ebind_eq_Inr: "(ebind r f = Inr y) = (\<exists>x. r = Inr x \<and> f x = Inr y)"
  by (cases r) simp_all

lemma map_err_Inr_iff: "(map_err f xs = Inr ys) = list_all2 (\<lambda>x y. f x = Inr y) xs ys"
proof (induction xs arbitrary: ys)
  case Nil
  then show ?case by auto
next
  case (Cons x xs)
  show ?case
    by (cases ys) (auto simp: ebind_eq_Inr Cons.IH)
qed

subsection \<open>Transposition and quarter turns of numpy\<close>

lemma index_of_upt: "a \<le> d \<Longrightarrow> d < b \<Longrightarrow> index_of [a..<b] d = d - a"
proof (induction "b - a" arbitrary: a)
  case 0
  then show ?case by simp
next
  case (Suc n)
  then have "[a..<b] = a # [Suc a..<b]" by (simp add: upt_conv_Cons)
  with Suc show ?case by (cases "a = d") auto
qed

lemma swapped_axes: "[0..<Suc (Suc n)][0 := 1, 1 := 0] = 1 # 0 # [2..<Suc (Suc n)]"
  by (simp add: upt_conv_Cons numeral_2_eq_2 del: upt_Suc)

lemma map_nth_tail: "map (\<lambda>d. (a # b # ts) ! d) [2..<Suc (Suc (length ts))] = ts"
  by (rule nth_equalityI) (simp_all del: upt_Suc)

lemma swapped_index:
  assumes "length ts = n"
  shows "map (\<lambda>d. (i # j # ts) ! index_of (1 # 0 # [2..<Suc (Suc n)]) d) [0..<Suc (Suc n)] = j # i # ts"
proof (rule nth_equalityI)
  show "length (map (\<lambda>d. (i # j # ts) ! index_of (1 # 0 # [2..<Suc (Suc n)]) d) [0..<Suc (Suc n)]) = length (j # i # ts)"
    using assms by simp
next
  fix k
  assume "k < length (map (\<lambda>d. (i # j # ts) ! index_of (1 # 0 # [2..<Suc (Suc n)]) d) [0..<Suc (Suc n)])"
  then have k: "k < Suc (Suc n)" by simp
  consider "k = 0" | "k = 1" | "2 \<le> k" by linarith
  then show "map (\<lambda>d. (i # j # ts) ! index_of (1 # 0 # [2..<Suc (Suc n)]) d) [0..<Suc (Suc n)] ! k = (j # i # ts) ! k"
  proof cases
    case 1
    then show ?thesis by (simp del: upt_Suc)
  next
    case 2
    then show ?thesis using k by (simp del: upt_Suc)
  next
    case 3
    then have "index_of [2..<Suc (Suc n)] k = k - 2" using k by (intro index_of_upt) auto
    moreover obtain k' where "k = Suc (Suc k')" using 3 by (metis Suc_le_D numeral_2_eq_2 Suc_le_mono)
    ultimately show ?thesis using k 3 by (simp add: nth_Cons' del: upt_Suc)
  qed
qed

lemma swapped_index_Suc:
  "length ts = n \<Longrightarrow>
   map (\<lambda>d. (i # j # ts) ! index_of (Suc 0 # 0 # [2..<Suc (Suc n)]) d) [0..<Suc (Suc n)] = j # i # ts"
  using swapped_index[of ts n i j] by simp

lemma np_transpose_swap:
  assumes "shape m = h # w # rest"
  shows "\<exists>t. np_transpose m ([0..<length (shape m)][0 := 1, 1 := 0]) = Inr t \<and>
           shape t = w # h # rest \<and> dtype t = dtype m \<and>
           (\<forall>i j ts. length ts = length rest \<longrightarrow> data t (i # j # ts) = data m (j # i # ts))"
proof -
  have ax: "[0..<length (shape m)][0 := 1, 1 := 0] = 1 # 0 # [2..<Suc (Suc (length rest))]"
    using assms swapped_axes[of "length rest"] by simp
  have d: "distinct (1 # 0 # [2..<Suc (Suc (length rest))])" by (simp del: upt_Suc)
  have b: "list_all (\<lambda>a. a < Suc (Suc (length rest))) (1 # 0 # [2..<Suc (Suc (length rest))])"
    by (simp add: list_all_iff del: upt_Suc)
  have s: "map (\<lambda>a. (h # w # rest) ! a) (1 # 0 # [2..<Suc (Suc (length rest))]) = w # h # rest"
    using map_nth_tail[of h w rest] by (simp del: upt_Suc)
  show ?thesis
    unfolding ax using assms d b s
    by (simp add: np_transpose_def Let_def swapped_index_Suc del: upt_Suc index_of.simps)
qed

lemma np_rot90_3:
  assumes "shape m = h # w # rest"
  shows "\<exists>r. np_rot90 m 3 = Inr r \<and> shape r = w # h # rest \<and> dtype r = dtype m \<and>
           (\<forall>i j ts. length ts = length rest \<longrightarrow>
              data r (i # j # ts) = data m ((h - 1 - j) # i # ts))"
proof -
  obtain t where t: "np_transpose m ([0..<length (shape m)][0 := 1, 1 := 0]) = Inr t"
      "shape t = w # h # rest" "dtype t = dtype m"
      "\<forall>i j ts. length ts = length rest \<longrightarrow> data t (i # j # ts) = data m (j # i # ts)"
    using np_transpose_swap[OF assms] by blast
  have "np_rot90 m 3 = Inr (np_flip t 1)"
    using assms t(1) by (simp add: np_rot90_def Let_def del: upt_Suc)
  moreover have "shape (np_flip t 1) = w # h # rest" "dtype (np_flip t 1) = dtype m"
    using t by (simp_all add: np_flip_def)
  moreover have "\<forall>i j ts. length ts = length rest \<longrightarrow>
      data (np_flip t 1) (i # j # ts) = data m ((h - 1 - j) # i # ts)"
    using t by (simp add: np_flip_def)
  ultimately show ?thesis by blast
qed

lemma np_rot90_1:
  assumes "shape m = h # w # rest"
  shows "\<exists>r. np_rot90 m 1 = Inr r \<and> shape r = w # h # rest \<and> dtype r = dtype m \<and>
           (\<forall>i j ts. length ts = length rest \<longrightarrow>
              data r (i # j # ts) = data m (j # (w - 1 - i) # ts))"
proof -
  have sf: "shape (np_flip m 1) = h # w # rest" using assms by (simp add: np_flip_def)
  obtain t where t: "np_transpose (np_flip m 1) ([0..<length (shape (np_flip m 1))][0 := 1, 1 := 0]) = Inr t"
      "shape t = w # h # rest" "dtype t = dtype (np_flip m 1)"
      "\<forall>i j ts. length ts = length rest \<longrightarrow> data t (i # j # ts) = data (np_flip m 1) (j # i # ts)"
    using np_transpose_swap[OF sf] by blast
  have "np_rot90 m 1 = Inr t"
    using assms t(1) sf by (simp add: np_rot90_def Let_def del: upt_Suc)
  moreover have "dtype t = dtype m" using t(3) by (simp add: np_flip_def)
  moreover have "\<forall>i j ts. length ts = length rest \<longrightarrow>
      data t (i # j # ts) = data m (j # (w - 1 - i) # ts)"
    using t(4) assms by (simp add: np_flip_def)
  ultimately show ?thesis using t(2) by blast
qed

subsection \<open>The padder\<close>

text \<open>
  C6. With both deltas non-negative, \<^verbatim>\<open>pad_image\<close> hands \<^verbatim>\<open>pad\<close> the amounts
  \<open>pad_left = dw div 2\<close>, \<open>pad_right = dw - pad_left\<close>, \<open>pad_top = dh div 2\<close>,
  \<open>pad_bottom = dh - pad_top\<close>: equal halves for an even delta, and for an odd delta
  the smaller half on the top or left and the larger, by one, on the bottom or right.
\<close>

theorem pad_image_splits_evenly:
  assumes "get_image_size img fmt = Inr (h, w)"
    and "0 \<le> width s - int w" and "0 \<le> height s - int h"
  shows "let dw = width s - int w; dh = height s - int h;
             pad_left = dw div 2; pad_right = dw - pad_left;
             pad_top = dh div 2; pad_bottom = dh - pad_top
         in pad_image_padding dh dw = ((pad_top, pad_bottom), (pad_left, pad_right)) \<and>
            pad_image e img (Some s) df fmt v =
              transformers_pad e img ((nat pad_top, nat pad_bottom), (nat pad_left, nat pad_right))
                v df fmt \<and>
            (even dw \<longrightarrow> pad_left = pad_right) \<and> (even dh \<longrightarrow> pad_top = pad_bottom) \<and>
            (odd dw \<longrightarrow> pad_right = pad_left + 1) \<and> (odd dh \<longrightarrow> pad_bottom = pad_top + 1) \<and>
            pad_left \<le> pad_right \<and> pad_top \<le> pad_bottom \<and> 0 \<le> pad_left \<and> 0 \<le> pad_top"
proof -
  define dw where "dw = width s - int w"
  define dh where "dh = height s - int h"
  have nn: "0 \<le> dw" "0 \<le> dh" using assms by (simp_all add: dw_def dh_def)
  have p: "pad_image_padding dh dw = ((dh div 2, dh - dh div 2), (dw div 2, dw - dw div 2))"
    by (simp add: pad_image_padding_def Let_def)
  have q: "pad_image e img (Some s) df fmt v =
      transformers_pad e img ((nat (dh div 2), nat (dh - dh div 2)), (nat (dw div 2), nat (dw - dw div 2)))
        v df fmt"
    using assms(1) nn p by (simp add: pad_image_def Let_def dw_def dh_def)
  have a: "even dw \<longrightarrow> dw div 2 = dw - dw div 2" "even dh \<longrightarrow> dh div 2 = dh - dh div 2"
    "odd dw \<longrightarrow> dw - dw div 2 = dw div 2 + 1" "odd dh \<longrightarrow> dh - dh div 2 = dh div 2 + 1"
    by presburger+
  have b: "dw div 2 \<le> dw - dw div 2" "dh div 2 \<le> dh - dh div 2" "0 \<le> dw div 2" "0 \<le> dh div 2"
    using nn by presburger+
  show ?thesis
    unfolding Let_def dw_def[symmetric] dh_def[symmetric] using p q a b by blast
qed

theorem pad_image_splits_evenly_witness:
  "pad_image_padding 1 3 = ((0, 1), (1, 2)) \<and>
   pad_image probe_env chw_image (Some \<lparr>width = 5, height = 3\<rparr>) None FIRST (PyInt 255) =
     transformers_pad probe_env chw_image ((0, 1), (1, 2)) (PyInt 255) None FIRST"
  using pad_image_splits_evenly[of chw_image FIRST 2 2 "\<lparr>width = 5, height = 3\<rparr>" probe_env None
      "PyInt 255"]
  by (simp add: get_image_size_def chw_image_def Let_def)


lemma floating_stores: "dt \<noteq> UInt8 \<Longrightarrow> \<not> constant_overflows dt v"
  by (cases v) (simp_all add: constant_overflows_def)

lemma transformers_pad_first:
  assumes "shape img = [c, h, w]"
  shows "transformers_pad e img ((t, b), (l, r)) v None FIRST =
           (if constant_overflows (dtype img) v then Inl OverflowError
            else Inr (img\<lparr>shape := [c, t + h + b, l + w + r],
                    data := (\<lambda>idx.
                      if list_all2 (\<lambda>i (n, (b, a)). b \<le> i \<and> i < b + n) idx
                           [(c, (0, 0)), (h, (t, b)), (w, (l, r))]
                      then data img (map2 (\<lambda>i (b, a). i - b) idx [(0, 0), (t, b), (l, r)])
                      else float_round e (dtype img) (py_real v))\<rparr>))"
  using assms
  by (simp add: transformers_pad_def np_pad_def to_channel_dimension_format_def)



subsection \<open>The orientation aligner\<close>

lemma in_bounds_Cons2:
  "in_bounds (a # b # rest) idx =
     (\<exists>i j ts. idx = i # j # ts \<and> i < a \<and> j < b \<and> in_bounds rest ts)"
  by (auto simp: in_bounds_def list_all2_Cons2)

lemma in_bounds_length: "in_bounds shp idx \<Longrightarrow> length idx = length shp"
  by (simp add: in_bounds_def list_all2_lengthD)

lemma same_array_rotate_cw:
  assumes "shape img = h # w # rest" and "shape r = w # h # rest" and "dtype r = dtype img"
    and "\<forall>i j ts. i < w \<and> j < h \<and> length ts = length rest \<longrightarrow>
           data r (i # j # ts) = data img ((h - 1 - j) # i # ts)"
  shows "same_array r (rotate_cw img)"
  using assms
  by (auto simp: same_array_def rotate_cw_def in_bounds_Cons2 dest: in_bounds_length)

lemma same_array_rotate_ccw:
  assumes "shape img = h # w # rest" and "shape r = w # h # rest" and "dtype r = dtype img"
    and "\<forall>i j ts. i < w \<and> j < h \<and> length ts = length rest \<longrightarrow>
           data r (i # j # ts) = data img (j # (w - 1 - i) # ts)"
  shows "same_array r (rotate_ccw img)"
  using assms
  by (auto simp: same_array_def rotate_ccw_def in_bounds_Cons2 dest: in_bounds_length)

lemma align_long_axis_cases:
  assumes "shape img = h # w # rest"
  shows "align_long_axis img (Some s) =
           (if (width s < height s \<and> h < w) \<or> (height s < width s \<and> w < h)
            then np_rot90 img 3 else Inr img)"
  using assms by (simp add: align_long_axis_def Let_def)

lemma assert_wider_Inr_iff:
  "(assert_wider xs = Inr ()) =
     list_all (\<lambda>a. 2 \<le> length (shape a) \<and> shape a ! 0 \<le> shape a ! 1) xs"
  by (induction xs) (auto simp: shape_at_def)

lemma process_inner_align_on:
  assumes "do_align_long_axis p"
  shows "(process_inner_align p images = Inr out) =
           (list_all2 (\<lambda>img y. align_long_axis img (max_size p) = Inr y) images out \<and>
            list_all (\<lambda>a. 2 \<le> length (shape a) \<and> shape a ! 0 \<le> shape a ! 1) out)"
proof -
  have "(process_inner_align p images = Inr out) =
      (map_err (\<lambda>img. align_long_axis img (max_size p)) images = Inr out \<and>
       assert_wider out = Inr ())"
    using assms by (auto simp: process_inner_align_def ebind_eq_Inr)
  then show ?thesis
    unfolding map_err_Inr_iff assert_wider_Inr_iff .
qed

text \<open>
  C5. On an image of height \<open>h\<close> and width \<open>w\<close>, \<^verbatim>\<open>align_long_axis\<close> returns the rotated
  image (whose height and width are swapped, so it differs from the input) exactly when
  the target is portrait and the image landscape, or the target landscape and the image
  portrait; a square image and a square target leave the image as it is. With the flag
  off the alignment block of \<^verbatim>\<open>process_inner\<close> returns its input list; with the flag on
  it returns a list exactly when that list holds, image by image, what
  \<^verbatim>\<open>align_long_axis\<close> makes of the input under \<^verbatim>\<open>max_size\<close> and each of its arrays is at
  least as wide as tall.
\<close>

theorem align_long_axis_rotates_iff:
  assumes "shape img = h # w # rest"
  shows "\<exists>rot. np_rot90 img 3 = Inr rot \<and> shape rot = w # h # rest \<and>
           align_long_axis img (Some s) =
             Inr (if (width s < height s \<and> h < w) \<or> (height s < width s \<and> w < h)
                  then rot else img) \<and>
           ((width s < height s \<and> h < w) \<or> (height s < width s \<and> w < h) \<longrightarrow> rot \<noteq> img) \<and>
           (h = w \<longrightarrow> align_long_axis img (Some s) = Inr img) \<and>
           (width s = height s \<longrightarrow> align_long_axis img (Some s) = Inr img) \<and>
           (\<not> do_align_long_axis p \<longrightarrow> process_inner_align p images = Inr images) \<and>
           (do_align_long_axis p \<longrightarrow>
              (process_inner_align p images = Inr out) =
                (list_all2 (\<lambda>img y. align_long_axis img (max_size p) = Inr y) images out \<and>
                 list_all (\<lambda>a. 2 \<le> length (shape a) \<and> shape a ! 0 \<le> shape a ! 1) out))"
proof -
  obtain rot where rot: "np_rot90 img 3 = Inr rot" "shape rot = w # h # rest"
    using np_rot90_3[OF assms] by blast
  have ne: "rot \<noteq> img" if "h \<noteq> w"
  proof
    assume "rot = img"
    then have "shape rot = shape img" by simp
    then show False using rot(2) assms that by simp
  qed
  have dis: "\<not> do_align_long_axis p \<longrightarrow> process_inner_align p images = Inr images"
    by (simp add: process_inner_align_def)
  have en: "do_align_long_axis p \<longrightarrow>
      (process_inner_align p images = Inr out) =
        (list_all2 (\<lambda>img y. align_long_axis img (max_size p) = Inr y) images out \<and>
         list_all (\<lambda>a. 2 \<le> length (shape a) \<and> shape a ! 0 \<le> shape a ! 1) out)"
    using process_inner_align_on by blast
  have "np_rot90 img 3 = Inr rot \<and> shape rot = w # h # rest \<and>
      align_long_axis img (Some s) =
        Inr (if (width s < height s \<and> h < w) \<or> (height s < width s \<and> w < h) then rot else img) \<and>
      ((width s < height s \<and> h < w) \<or> (height s < width s \<and> w < h) \<longrightarrow> rot \<noteq> img) \<and>
      (h = w \<longrightarrow> align_long_axis img (Some s) = Inr img) \<and>
      (width s = height s \<longrightarrow> align_long_axis img (Some s) = Inr img)"
    using rot ne align_long_axis_cases[OF assms, of s] by auto
  then show ?thesis using dis en by blast
qed

theorem align_long_axis_rotates_iff_witness:
  "(\<exists>r. align_long_axis strip_image (Some \<lparr>width = 1, height = 2\<rparr>) = Inr r \<and> shape r = [2, 1, 3]) \<and>
   align_long_axis strip_image (Some \<lparr>width = 2, height = 1\<rparr>) = Inr strip_image \<and>
   align_long_axis strip_image (Some \<lparr>width = 2, height = 2\<rparr>) = Inr strip_image \<and>
   process_inner_align (init None None None None None) [strip_image] = Inr [strip_image] \<and>
   (\<exists>r. process_inner_align (init (Some \<lparr>width = 2, height = 1\<rparr>) (Some True) None None None)
          [tall_image] = Inr [r] \<and>
        np_rot90 tall_image 3 = Inr r \<and> shape r = [1, 2, 3])"
proof -
  let ?off = "init None None None None None"
  let ?on = "init (Some \<lparr>width = 2, height = 1\<rparr>) (Some True) None None None"
  have s: "shape strip_image = 1 # 2 # [3]" by (simp add: strip_image_def)
  have t: "shape tall_image = 2 # 1 # [3]" by (simp add: tall_image_def)
  have first: "(\<exists>r. align_long_axis strip_image (Some \<lparr>width = 1, height = 2\<rparr>) = Inr r \<and>
        shape r = [2, 1, 3]) \<and>
      align_long_axis strip_image (Some \<lparr>width = 2, height = 1\<rparr>) = Inr strip_image \<and>
      align_long_axis strip_image (Some \<lparr>width = 2, height = 2\<rparr>) = Inr strip_image \<and>
      process_inner_align ?off [strip_image] = Inr [strip_image]"
    using align_long_axis_rotates_iff[OF s, where s = "\<lparr>width = 1, height = 2\<rparr>" and p = ?off
        and images = "[strip_image]"]
      align_long_axis_rotates_iff[OF s, where s = "\<lparr>width = 2, height = 1\<rparr>" and p = ?off
        and images = "[strip_image]"]
      align_long_axis_rotates_iff[OF s, where s = "\<lparr>width = 2, height = 2\<rparr>" and p = ?off
        and images = "[strip_image]"]
    by (auto simp: init_def)
  obtain rot where rot: "np_rot90 tall_image 3 = Inr rot" "shape rot = [1, 2, 3]"
      "align_long_axis tall_image (Some \<lparr>width = 2, height = 1\<rparr>) = Inr rot"
    using align_long_axis_rotates_iff[OF t, where s = "\<lparr>width = 2, height = 1\<rparr>" and p = ?on
        and images = "[tall_image]"]
    by auto
  have on: "do_align_long_axis ?on" "max_size ?on = Some \<lparr>width = 2, height = 1\<rparr>"
    by (simp_all add: init_def)
  have "process_inner_align ?on [tall_image] = Inr [rot]"
    using align_long_axis_rotates_iff[OF t, where s = "\<lparr>width = 2, height = 1\<rparr>" and p = ?on
        and images = "[tall_image]" and out = "[rot]"] on rot
    by simp
  then show ?thesis using first rot(1,2) by blast
qed

text \<open>
  C4, as the code has it. When \<^verbatim>\<open>align_long_axis\<close> rotates, the result is the image
  turned a quarter turn clockwise. It is \<^verbatim>\<open>np.rot90(image, 3)\<close>: the primitive
  \<^verbatim>\<open>np.rot90(image, 1)\<close> is a quarter turn counter-clockwise, and applying it three times
  gives the same array.
\<close>

theorem align_long_axis_turns_clockwise:
  assumes "shape img = h # w # rest"
    and "(width s < height s \<and> h < w) \<or> (height s < width s \<and> w < h)"
  shows "\<exists>r r1 r2 r3. align_long_axis img (Some s) = Inr r \<and> np_rot90 img 3 = Inr r \<and>
           same_array r (rotate_cw img) \<and>
           np_rot90 img 1 = Inr r1 \<and> same_array r1 (rotate_ccw img) \<and>
           np_rot90 r1 1 = Inr r2 \<and> np_rot90 r2 1 = Inr r3 \<and> same_array r3 r"
proof -
  obtain r where r: "np_rot90 img 3 = Inr r" "shape r = w # h # rest" "dtype r = dtype img"
      "\<forall>i j ts. length ts = length rest \<longrightarrow> data r (i # j # ts) = data img ((h - 1 - j) # i # ts)"
    using np_rot90_3[OF assms(1)] by blast
  obtain r1 where r1: "np_rot90 img 1 = Inr r1" "shape r1 = w # h # rest" "dtype r1 = dtype img"
      "\<forall>i j ts. length ts = length rest \<longrightarrow> data r1 (i # j # ts) = data img (j # (w - 1 - i) # ts)"
    using np_rot90_1[OF assms(1)] by blast
  obtain r2 where r2: "np_rot90 r1 1 = Inr r2" "shape r2 = h # w # rest" "dtype r2 = dtype r1"
      "\<forall>i j ts. length ts = length rest \<longrightarrow> data r2 (i # j # ts) = data r1 (j # (h - 1 - i) # ts)"
    using np_rot90_1[OF r1(2)] by blast
  obtain r3 where r3: "np_rot90 r2 1 = Inr r3" "shape r3 = w # h # rest" "dtype r3 = dtype r2"
      "\<forall>i j ts. length ts = length rest \<longrightarrow> data r3 (i # j # ts) = data r2 (j # (w - 1 - i) # ts)"
    using np_rot90_1[OF r2(2)] by blast
  have al: "align_long_axis img (Some s) = Inr r"
    using align_long_axis_cases[OF assms(1), of s] assms(2) r(1) by simp
  have cw: "same_array r (rotate_cw img)"
    using same_array_rotate_cw[OF assms(1) r(2) r(3)] r(4) by simp
  have ccw: "same_array r1 (rotate_ccw img)"
    using same_array_rotate_ccw[OF assms(1) r1(2) r1(3)] r1(4) by simp
  have d3: "data r3 (i # j # ts) = data r (i # j # ts)"
    if "i < w" "j < h" "length ts = length rest" for i j ts
  proof -
    have "data r3 (i # j # ts) = data r2 (j # (w - 1 - i) # ts)" using r3(4) that by simp
    also have "\<dots> = data r1 ((w - 1 - i) # (h - 1 - j) # ts)" using r2(4) that by simp
    also have "\<dots> = data img ((h - 1 - j) # (w - 1 - (w - 1 - i)) # ts)" using r1(4) that by simp
    also have "w - 1 - (w - 1 - i) = i" using that(1) by simp
    finally show ?thesis using r(4) that by simp
  qed
  have same: "same_array r3 r"
    using r(2,3) r1(3) r2(3) r3(2,3) d3
    by (auto simp: same_array_def in_bounds_Cons2 dest: in_bounds_length)
  show ?thesis using al r(1) cw r1(1) ccw r2(1) r3(1) same by blast
qed

theorem align_long_axis_turns_clockwise_witness:
  "\<exists>r r1 r2 r3. align_long_axis strip_image (Some \<lparr>width = 1, height = 2\<rparr>) = Inr r \<and>
      np_rot90 strip_image 3 = Inr r \<and> same_array r (rotate_cw strip_image) \<and>
      np_rot90 strip_image 1 = Inr r1 \<and> same_array r1 (rotate_ccw strip_image) \<and>
      np_rot90 r1 1 = Inr r2 \<and> np_rot90 r2 1 = Inr r3 \<and> same_array r3 r"
proof -
  have s: "shape strip_image = 1 # 2 # [3]" by (simp add: strip_image_def)
  show ?thesis
    using align_long_axis_turns_clockwise[OF s, of "\<lparr>width = 1, height = 2\<rparr>"] by simp
qed

text \<open>
  The image of one row and two pixels, under a portrait target: the aligned image has the
  left pixel on top, as a clockwise turn does; a counter-clockwise turn puts the right
  pixel on top. And one application of the primitive is the counter-clockwise turn.
\<close>

theorem align_long_axis_not_counter_clockwise:
  "\<not> isl (align_long_axis strip_image (Some \<lparr>width = 1, height = 2\<rparr>)) \<and>
   \<not> same_array (projr (align_long_axis strip_image (Some \<lparr>width = 1, height = 2\<rparr>)))
        (rotate_ccw strip_image) \<and>
   same_array (projr (align_long_axis strip_image (Some \<lparr>width = 1, height = 2\<rparr>)))
        (rotate_cw strip_image) \<and>
   same_array (projr (np_rot90 strip_image 1)) (rotate_ccw strip_image) \<and>
   data (projr (align_long_axis strip_image (Some \<lparr>width = 1, height = 2\<rparr>))) [0, 0, 0] =
     data strip_image [0, 0, 0] \<and>
   data (rotate_ccw strip_image) [0, 0, 0] = data strip_image [0, 1, 0] \<and>
   data strip_image [0, 0, 0] = 0 \<and> data strip_image [0, 1, 0] = 10"
proof -
  have s: "shape strip_image = 1 # 2 # [3]" by (simp add: strip_image_def)
  obtain r where r: "np_rot90 strip_image 3 = Inr r" "shape r = 2 # 1 # [3]"
      "\<forall>i j ts. length ts = length [3::nat] \<longrightarrow>
         data r (i # j # ts) = data strip_image ((1 - 1 - j) # i # ts)"
      "dtype r = dtype strip_image"
    using np_rot90_3[OF s] by blast
  obtain r1 where r1: "np_rot90 strip_image 1 = Inr r1" "shape r1 = 2 # 1 # [3]"
      "dtype r1 = dtype strip_image"
      "\<forall>i j ts. length ts = length [3::nat] \<longrightarrow>
         data r1 (i # j # ts) = data strip_image (j # (2 - 1 - i) # ts)"
    using np_rot90_1[OF s] by blast
  have q: "align_long_axis strip_image (Some \<lparr>width = 1, height = 2\<rparr>) = Inr r"
      "same_array r (rotate_cw strip_image)"
      "np_rot90 strip_image 1 = Inr r1" "same_array r1 (rotate_ccw strip_image)"
  proof -
    show "align_long_axis strip_image (Some \<lparr>width = 1, height = 2\<rparr>) = Inr r"
      using align_long_axis_cases[OF s, of "\<lparr>width = 1, height = 2\<rparr>"] r(1) by simp
    show "same_array r (rotate_cw strip_image)"
      using same_array_rotate_cw[OF s r(2) r(4)] r(3) by simp
    show "np_rot90 strip_image 1 = Inr r1" by (rule r1(1))
    show "same_array r1 (rotate_ccw strip_image)"
      using same_array_rotate_ccw[OF s r1(2) r1(3)] r1(4) by simp
  qed
  have d0: "data r [0, 0, 0] = data strip_image [0, 0, 0]"
    using r(3)[rule_format, of "[0]" 0 0] by simp
  have c0: "data (rotate_ccw strip_image) [0, 0, 0] = data strip_image [0, 1, 0]"
    by (simp add: rotate_ccw_def strip_image_def)
  have v: "data strip_image [0, 0, 0] = 0" "data strip_image [0, 1, 0] = 10"
    by (simp_all add: strip_image_def)
  have ib: "in_bounds (shape r) [0, 0, 0]"
    using r(2) by (simp add: in_bounds_def)
  have "\<not> same_array r (rotate_ccw strip_image)"
  proof
    assume "same_array r (rotate_ccw strip_image)"
    then have "data r [0, 0, 0] = data (rotate_ccw strip_image) [0, 0, 0]"
      using ib by (simp add: same_array_def)
    then show False using d0 c0 v by simp
  qed
  then show ?thesis using q d0 c0 v by simp
qed

subsection \<open>The stages of the pipeline, one image at a time\<close>

lemma np_transpose_201:
  assumes "shape m = [a, b, c]"
  shows "np_transpose m [2, 0, 1] =
           Inr (m\<lparr>shape := [c, a, b], data := (\<lambda>idx. data m [idx ! 1, idx ! 2, idx ! 0])\<rparr>)"
proof -
  have u: "[0..<3] = [0, 1, 2]" by (simp add: upt_conv_Cons)
  have n: "length (shape m) = 3" using assms by simp
  show ?thesis
    unfolding np_transpose_def Let_def n u using assms by (simp add: numeral_2_eq_2)
qed

lemma numpy_resize_rgb:
  assumes "shape img = [h, w, c]" and "0 < h" and "0 < w" and "2 \<le> c" and "c \<le> 512"
    and "0 < width s" and "0 < height s" and "width s \<le> INT_MAX" and "height s \<le> INT_MAX"
    and "known_interpolation (case flag of None \<Rightarrow> INTER_LANCZOS4 | Some i \<Rightarrow> i)"
  shows "numpy_resize e img (Some s) flag =
           Inr \<lparr>shape = [c, nat (height s), nat (width s)], dtype = dtype img,
                data = (\<lambda>idx. cv2_resample e (case flag of None \<Rightarrow> INTER_LANCZOS4 | Some i \<Rightarrow> i)
                                  img (nat (height s), nat (width s)) [idx ! 1, idx ! 2, idx ! 0])\<rparr>"
proof -
  let ?k = "case flag of None \<Rightarrow> INTER_LANCZOS4 | Some i \<Rightarrow> i"
  let ?r = "\<lparr>shape = [nat (height s), nat (width s), c], dtype = dtype img,
             data = cv2_resample e ?k img (nat (height s), nat (width s))\<rparr>"
  have r: "cv2_resize e img (width s, height s) ?k = Inr ?r"
    using assms by (simp add: cv2_resize_def Let_def)
  have t: "np_transpose ?r [2, 0, 1] =
      Inr (?r\<lparr>shape := [c, nat (height s), nat (width s)],
              data := (\<lambda>idx. data ?r [idx ! 1, idx ! 2, idx ! 0])\<rparr>)"
    by (rule np_transpose_201) simp
  show ?thesis
    unfolding numpy_resize_def Let_def using r t by simp
qed

lemma pad_image_exact:
  assumes "shape img = [c, nat (height s), nat (width s)]" and "0 < width s" and "0 < height s"
    and "\<not> constant_overflows (dtype img) v"
  shows "\<exists>r. pad_image e img (Some s) None FIRST v = Inr r \<and> shape r = shape img \<and>
           dtype r = dtype img \<and>
           (\<forall>k i j. i < nat (height s) \<and> j < nat (width s) \<and> k < c \<longrightarrow> data r [k, i, j] = data img [k, i, j])"
proof -
  have g: "get_image_size img FIRST = Inr (nat (height s), nat (width s))"
    using assms by (simp add: get_image_size_def)
  have eq: "pad_image e img (Some s) None FIRST v = transformers_pad e img ((0, 0), (0, 0)) v None FIRST"
    using g assms(2,3) by (simp add: pad_image_def pad_image_padding_def Let_def)
  show ?thesis
    unfolding eq transformers_pad_first[OF assms(1)] using assms by simp
qed

lemma rescale_fields:
  "shape (rescale e p img) = shape img" "dtype (rescale e p img) = Float32"
  "data (rescale e p img) idx =
     float_round e Float32
       (float_round e Float64 (float_round e Float64 (data img idx) * rescale_factor p))"
  "dtype (mul_scalar e (astype e img Float64) f) = Float64"
  by (simp_all add: rescale_def astype_def mul_scalar_def Let_def)

lemma astype_fields:
  "shape (astype e img dt) = shape img" "dtype (astype e img dt) = dt"
  "data (astype e img dt) idx = float_round e dt (data img idx)"
  by (simp_all add: astype_def)

lemma normalize_method_first:
  assumes "shape img = [c, h, w]" and "dtype img = Float32"
    and "expand_stat mean c = Inr ms" and "expand_stat std c = Inr ss"
  shows "normalize_method e img mean std None FIRST =
           Inr (img\<lparr>data := (\<lambda>idx.
                  float_round e Float32
                    (float_round e Float32 (data img idx - float_round e Float32 (ms ! (idx ! 0)))
                       / float_round e Float32 (ss ! (idx ! 0))))\<rparr>)"
  using assms
  by (simp add: normalize_method_def transformers_normalize_def Let_def
      to_channel_dimension_format_def)

lemma normalize_method_Inr_D:
  assumes "normalize_method e img mean std None FIRST = Inr out" and "dtype img = Float32"
  shows "\<exists>c h w ms ss. shape img = [c, h, w] \<and> expand_stat mean c = Inr ms \<and>
           expand_stat std c = Inr ss \<and> shape out = shape img \<and> dtype out = Float32 \<and>
           (\<forall>idx. data out idx =
              float_round e Float32
                (float_round e Float32 (data img idx - float_round e Float32 (ms ! (idx ! 0)))
                   / float_round e Float32 (ss ! (idx ! 0))))"
proof -
  have n: "length (shape img) = 3"
    using assms(1) by (auto simp: normalize_method_def transformers_normalize_def split: if_splits)
  then obtain c h w where s: "shape img = [c, h, w]"
    by (metis length_0_conv length_Suc_conv numeral_3_eq_3)
  obtain ms where ms: "expand_stat mean c = Inr ms"
    using assms s
    by (cases "expand_stat mean c")
       (auto simp: normalize_method_def transformers_normalize_def Let_def)
  obtain ss where ss: "expand_stat std c = Inr ss"
    using assms s ms
    by (cases "expand_stat std c")
       (auto simp: normalize_method_def transformers_normalize_def Let_def)
  show ?thesis
    using normalize_method_first[OF s assms(2) ms ss, of e] assms s ms ss by auto
qed

subsection \<open>The stages of the pipeline, on the batch\<close>

lemma map_err_list_all:
  assumes "list_all P xs" and "\<And>x. P x \<Longrightarrow> \<exists>y. f x = Inr y \<and> Q y"
  shows "\<exists>ys. map_err f xs = Inr ys \<and> length ys = length xs \<and> list_all Q ys"
  using assms(1)
proof (induction xs)
  case Nil
  then show ?case by simp
next
  case (Cons x xs)
  then obtain ys where ys: "map_err f xs = Inr ys" "length ys = length xs" "list_all Q ys"
    by auto
  obtain y where y: "f x = Inr y" "Q y" using Cons.prems assms(2) by auto
  show ?case using ys y by simp
qed

lemma assert_wider_ok:
  "list_all (\<lambda>a. \<exists>h w rest. shape a = h # w # rest \<and> h \<le> w) xs \<Longrightarrow> assert_wider xs = Inr ()"
  by (induction xs) (auto simp: shape_at_def)

lemma assert_wider_Inr_D:
  "assert_wider xs = Inr u \<Longrightarrow>
   list_all (\<lambda>a. 2 \<le> length (shape a) \<and> shape a ! 0 \<le> shape a ! 1) xs"
proof (induction xs)
  case Nil
  then show ?case by simp
next
  case (Cons a xs)
  then show ?case
    by (auto simp: shape_at_def ebind_eq_Inr split: if_splits)
qed

lemma assert_wider_fails:
  assumes "a \<in> set xs" and "shape a = h # w # rest" and "w < h"
  shows "\<exists>err. assert_wider xs = Inl err"
proof (cases "assert_wider xs")
  case (Inl err)
  then show ?thesis by blast
next
  case (Inr u)
  then have "list_all (\<lambda>a. 2 \<le> length (shape a) \<and> shape a ! 0 \<le> shape a ! 1) xs"
    by (rule assert_wider_Inr_D)
  then have "shape a ! 0 \<le> shape a ! 1" using assms(1) by (simp add: list_all_iff)
  then show ?thesis using assms(2,3) by simp
qed

lemma assert_wider_error:
  assumes "list_all (\<lambda>a. 2 \<le> length (shape a)) xs" and "assert_wider xs = Inl err"
  shows "err = AssertionError"
  using assms
proof (induction xs)
  case Nil
  then show ?case by simp
next
  case (Cons a xs)
  then show ?case
    by (auto simp: shape_at_def split: if_splits)
qed

lemma align_long_axis_valid:
  assumes "valid_image img" and "do_al \<longrightarrow> aligned_wide s img"
  shows "\<exists>y. align_long_axis img (Some s) = Inr y \<and> valid_image y \<and>
           (do_al \<longrightarrow> (\<exists>h w rest. shape y = h # w # rest \<and> h \<le> w))"
proof -
  obtain h w where s: "shape img = h # w # [3]" "0 < h" "0 < w"
      "int h \<le> INT_MAX" "int w \<le> INT_MAX"
    using assms(1) by (auto simp: valid_image_def split: list.splits)
  obtain rot where rot: "np_rot90 img 3 = Inr rot" "shape rot = w # h # [3]"
    using np_rot90_3[OF s(1)] by blast
  have c: "align_long_axis img (Some s) =
      (if (width s < height s \<and> h < w) \<or> (height s < width s \<and> w < h) then Inr rot else Inr img)"
    using align_long_axis_cases[OF s(1), of s] rot(1) by simp
  show ?thesis
  proof (cases "(width s < height s \<and> h < w) \<or> (height s < width s \<and> w < h)")
    case True
    then have "align_long_axis img (Some s) = Inr rot" using c by auto
    moreover have "valid_image rot" using rot(2) s by (simp add: valid_image_def)
    moreover have "do_al \<longrightarrow> w \<le> h"
      using assms(2) True s(1) by (auto simp: aligned_wide_def)
    ultimately show ?thesis using rot(2) by auto
  next
    case False
    then have "align_long_axis img (Some s) = Inr img" using c by auto
    moreover have "do_al \<longrightarrow> h \<le> w"
      using assms(2) False s(1) by (auto simp: aligned_wide_def)
    ultimately show ?thesis using assms(1) s(1) by auto
  qed
qed

lemma process_inner_align_valid:
  assumes "list_all valid_image images" and "max_size p = Some s"
    and "do_align_long_axis p \<longrightarrow> list_all (aligned_wide s) images"
  shows "\<exists>ys. process_inner_align p images = Inr ys \<and> length ys = length images \<and>
           list_all valid_image ys"
proof (cases "do_align_long_axis p")
  case False
  then show ?thesis using assms(1) by (simp add: process_inner_align_def)
next
  case True
  have "list_all (\<lambda>x. valid_image x \<and> aligned_wide s x) images"
    using assms(1,3) True by (simp add: list_all_iff)
  then obtain ys where ys: "map_err (\<lambda>img. align_long_axis img (Some s)) images = Inr ys"
      "length ys = length images"
      "list_all (\<lambda>y. valid_image y \<and> (\<exists>h w rest. shape y = h # w # rest \<and> h \<le> w)) ys"
    using map_err_list_all[of "\<lambda>x. valid_image x \<and> aligned_wide s x" images
        "\<lambda>img. align_long_axis img (Some s)"
        "\<lambda>y. valid_image y \<and> (\<exists>h w rest. shape y = h # w # rest \<and> h \<le> w)"]
      align_long_axis_valid[of _ True s]
    by auto
  have "assert_wider ys = Inr ()"
    using ys(3) by (intro assert_wider_ok) (simp add: list_all_iff)
  moreover have "list_all valid_image ys" using ys(3) by (simp add: list_all_iff)
  ultimately show ?thesis
    using ys(1,2) True assms(2) by (simp add: process_inner_align_def)
qed

lemma process_inner_resize_valid:
  assumes "images \<noteq> []" and "list_all valid_image images" and "max_size p = Some s"
    and "0 < width s" and "0 < height s" and "width s \<le> INT_MAX" and "height s \<le> INT_MAX"
    and "known_interpolation (resample p)"
  shows "\<exists>ys. process_inner_resize e p images = Inr ys \<and> length ys = length images \<and>
           list_all (\<lambda>r. shape r = [3, nat (height s), nat (width s)]) ys"
proof -
  have one: "\<exists>y. numpy_resize e x (Some s) (Some (resample p)) = Inr y \<and>
               shape y = [3, nat (height s), nat (width s)]" if v: "valid_image x" for x
  proof -
    obtain h w where s: "shape x = [h, w, 3]" "0 < h" "0 < w"
      using v by (auto simp: valid_image_def split: list.splits)
    show ?thesis
      using numpy_resize_rgb[OF s(1) s(2) s(3) _ _ assms(4,5,6,7), of "Some (resample p)" e]
        assms(8)
      by simp
  qed
  obtain ys where ys: "map_err (\<lambda>img. numpy_resize e img (Some s) (Some (resample p))) images = Inr ys"
      "length ys = length images" "list_all (\<lambda>r. shape r = [3, nat (height s), nat (width s)]) ys"
    using map_err_list_all[OF assms(2), of "\<lambda>img. numpy_resize e img (Some s) (Some (resample p))"
        "\<lambda>r. shape r = [3, nat (height s), nat (width s)]"] one
    by blast
  obtain y rest where c: "ys = y # rest" using ys(2) assms(1) by (cases ys) auto
  then have "shape_at y 0 = Inr 3" using ys(3) by (simp add: shape_at_def)
  then show ?thesis
    using ys c assms(3) by (simp add: process_inner_resize_def)
qed

lemma process_inner_pad_valid:
  assumes "list_all (\<lambda>r. shape r = [c, nat (height s), nat (width s)]) xs"
    and "max_size p = Some s" and "0 < width s" and "0 < height s"
  shows "\<exists>ys. process_inner_pad e p (process_inner_cast e xs) = Inr ys \<and> length ys = length xs \<and>
           list_all (\<lambda>r. shape r = [c, nat (height s), nat (width s)] \<and> dtype r = Float32) ys"
proof -
  let ?P = "\<lambda>r. shape r = [c, nat (height s), nat (width s)] \<and> dtype r = Float32"
  have a: "list_all ?P (process_inner_cast e xs)"
    using assms(1) by (simp add: process_inner_cast_def list_all_iff astype_fields)
  have one: "\<exists>y. pad_image e x (Some s) None FIRST (RECOGNITION_PAD_VALUE e) = Inr y \<and> ?P y"
    if "?P x" for x
    using pad_image_exact[of x c s "RECOGNITION_PAD_VALUE e" e] that assms(3,4)
      floating_stores[of "dtype x" "RECOGNITION_PAD_VALUE e"]
    by auto
  show ?thesis
    using map_err_list_all[OF a, of "\<lambda>img. pad_image e img (Some s) None FIRST (RECOGNITION_PAD_VALUE e)" ?P]
      one assms(2)
    by (simp add: process_inner_pad_def process_inner_cast_def)
qed

lemma expand_stat_fits: "stat_fits st \<Longrightarrow> \<exists>xs. expand_stat st 3 = Inr xs"
  by (cases st) (simp_all add: stat_fits_def expand_stat_def)

lemma process_inner_normalize_valid:
  assumes "list_all (\<lambda>r. shape r = [3, hh, ww] \<and> dtype r = Float32) xs"
    and "stat_fits (image_mean p)" and "stat_fits (image_std p)"
  shows "\<exists>ys. process_inner_normalize e p (process_inner_rescale e p xs) = Inr ys \<and>
           length ys = length xs \<and>
           list_all (\<lambda>r. shape r = [3, hh, ww] \<and> dtype r = Float32) ys"
proof -
  let ?P = "\<lambda>r. shape r = [3, hh, ww] \<and> dtype r = Float32"
  obtain ms where ms: "expand_stat (image_mean p) 3 = Inr ms"
    using expand_stat_fits[OF assms(2)] by blast
  obtain ss where ss: "expand_stat (image_std p) 3 = Inr ss"
    using expand_stat_fits[OF assms(3)] by blast
  have a: "list_all ?P (process_inner_rescale e p xs)"
    using assms(1) by (simp add: process_inner_rescale_def list_all_iff rescale_fields)
  have one: "\<exists>y. normalize_method e x (image_mean p) (image_std p) None FIRST = Inr y \<and> ?P y"
    if "?P x" for x
  proof -
    have "shape x = [3, hh, ww]" "dtype x = Float32" using that by simp_all
    from normalize_method_first[OF this ms ss, of e] show ?thesis using that by simp
  qed
  show ?thesis
    using map_err_list_all[OF a, of "\<lambda>img. normalize_method e img (image_mean p) (image_std p) None FIRST" ?P]
      one
    by (simp add: process_inner_normalize_def process_inner_rescale_def)
qed

text \<open>
  C1, as the code has it. For a non-empty batch of images of three channels, channel last,
  of positive height and width within a C int; a target canvas the libraries can hold
  (each side positive and within a C int, its float64 copy within numpy's size limit); an
  interpolation flag \<^verbatim>\<open>cv2.resize\<close> knows, as the constructor sets; a pad value that a
  float32 array stores; and a mean and a standard deviation that are a scalar or have
  three entries: when alignment is off, or every image passes the width-over-height
  assertion after alignment (the target is landscape, or the image is square, or the
  target is square and the image landscape), \<^verbatim>\<open>process_inner\<close> returns one array per
  image, each of shape \<open>(3, target height, target width)\<close> and dtype float32.
\<close>

theorem process_inner_output_shape:
  assumes "images \<noteq> []" and "list_all valid_image images" and "max_size p = Some s"
    and "target_fits s" and "known_interpolation (resample p)"
    and "pad_value_fits Float32 (RECOGNITION_PAD_VALUE e)"
    and "stat_fits (image_mean p)" and "stat_fits (image_std p)"
    and "do_align_long_axis p \<longrightarrow> list_all (aligned_wide s) images"
  shows "\<exists>out. process_inner e p images = Inr out \<and> length out = length images \<and>
           list_all (\<lambda>r. shape r = [3, nat (height s), nat (width s)] \<and> dtype r = Float32) out"
proof -
  have t: "0 < width s" "0 < height s" "width s \<le> INT_MAX" "height s \<le> INT_MAX"
    using assms(4) by (simp_all add: target_fits_def)
  obtain x rest where c: "images = x # rest" using assms(1) by (cases images) auto
  then have "valid_image x" using assms(2) by simp
  then have f: "shape_at x 2 = Inr 3"
    by (auto simp: valid_image_def shape_at_def split: list.splits)
  obtain a where a: "process_inner_align p images = Inr a" "length a = length images"
      "list_all valid_image a"
    using process_inner_align_valid[OF assms(2,3,9)] by blast
  have ne: "a \<noteq> []" using a(2) assms(1) by auto
  obtain r where r: "process_inner_resize e p a = Inr r" "length r = length a"
      "list_all (\<lambda>r. shape r = [3, nat (height s), nat (width s)]) r"
    using process_inner_resize_valid[OF ne a(3) assms(3) t assms(5), of e] by blast
  obtain pd where pd: "process_inner_pad e p (process_inner_cast e r) = Inr pd" "length pd = length r"
      "list_all (\<lambda>r. shape r = [3, nat (height s), nat (width s)] \<and> dtype r = Float32) pd"
    using process_inner_pad_valid[OF r(3) assms(3) t(1,2), of e] by blast
  obtain out where out: "process_inner_normalize e p (process_inner_rescale e p pd) = Inr out"
      "length out = length pd"
      "list_all (\<lambda>r. shape r = [3, nat (height s), nat (width s)] \<and> dtype r = Float32) out"
    using process_inner_normalize_valid[OF pd(3) assms(7,8), of e] by blast
  have "process_inner e p images = Inr out"
    using c f a(1) r(1) pd(1) out(1) by (simp add: process_inner_def)
  then show ?thesis using out(2,3) pd(2) r(2) a(2) by simp
qed

theorem process_inner_output_shape_witness:
  "\<exists>out. process_inner probe_env (init (Some \<lparr>width = 4, height = 2\<rparr>) (Some True) None None None)
            [tall_image, rgb_image] = Inr out \<and>
         length out = 2 \<and> list_all (\<lambda>r. shape r = [3, 2, 4] \<and> dtype r = Float32) out"
proof -
  let ?s = "\<lparr>width = 4, height = 2\<rparr>"
  let ?p = "init (Some ?s) (Some True) None None None"
  have 1: "[tall_image, rgb_image] \<noteq> []" by simp
  have 2: "list_all valid_image [tall_image, rgb_image]"
    by (simp add: valid_image_def tall_image_def rgb_image_def INT_MAX_def)
  have 3: "max_size ?p = Some ?s" by (simp add: init_def)
  have 4: "target_fits ?s" "known_interpolation (resample ?p)"
      "pad_value_fits Float32 (RECOGNITION_PAD_VALUE probe_env)"
    by (simp_all add: target_fits_def INT_MAX_def known_interpolation_def init_def
        Resampling_BILINEAR_def pad_value_fits_def probe_env_def)
  have 5: "stat_fits (image_mean ?p)" "stat_fits (image_std ?p)"
    by (simp_all add: init_def stat_fits_def IMAGENET_STANDARD_MEAN_def IMAGENET_STANDARD_STD_def)
  have 6: "do_align_long_axis ?p \<longrightarrow> list_all (aligned_wide ?s) [tall_image, rgb_image]"
    by (simp add: aligned_wide_def tall_image_def rgb_image_def)
  show ?thesis
    using process_inner_output_shape[OF 1 2 3 4 5 6] by (simp add: numeral_2_eq_2)
qed

text \<open>
  With alignment on and a portrait target, a portrait image of three channels is refused:
  the claim as stated fails there.
\<close>

theorem process_inner_refuses_portrait:
  "process_inner probe_env (init (Some \<lparr>width = 1, height = 2\<rparr>) (Some True) None None None)
     [tall_image] = Inl AssertionError \<and>
   valid_image tall_image"
  by (simp add: process_inner_def process_inner_align_def align_long_axis_def init_def
      tall_image_def shape_at_def valid_image_def INT_MAX_def)

subsection \<open>What a successful run went through, and where alignment stops a run\<close>

lemma process_inner_Inr_D:
  assumes "process_inner e p images = Inr out"
  shows "\<exists>a r pd. process_inner_align p images = Inr a \<and> process_inner_resize e p a = Inr r \<and>
           process_inner_pad e p (process_inner_cast e r) = Inr pd \<and>
           process_inner_normalize e p (process_inner_rescale e p pd) = Inr out"
  using assms
  by (auto simp: process_inner_def ebind_eq_Inr split: list.splits if_splits)

lemma process_inner_align_Inl:
  assumes "process_inner_align p images = Inl err"
  shows "\<exists>err'. process_inner e p images = Inl err'"
proof (cases images)
  case Nil
  then show ?thesis by (simp add: process_inner_def)
next
  case (Cons x xs)
  show ?thesis
  proof (cases "shape_at x 2")
    case (Inl a)
    then show ?thesis using Cons by (simp add: process_inner_def)
  next
    case (Inr c)
    then show ?thesis using Cons assms by (simp add: process_inner_def)
  qed
qed

lemma map_err_member:
  assumes "map_err f xs = Inr ys" and "x \<in> set xs"
  shows "\<exists>y \<in> set ys. f x = Inr y"
proof -
  have l: "list_all2 (\<lambda>x y. f x = Inr y) xs ys" using assms(1) by (simp add: map_err_Inr_iff)
  obtain i where i: "i < length xs" "xs ! i = x" using assms(2) by (auto simp: in_set_conv_nth)
  have "f (xs ! i) = Inr (ys ! i)" "i < length ys"
    using l i(1) by (auto simp: list_all2_conv_all_nth)
  then show ?thesis using i(2) by auto
qed

lemma align_long_axis_two_axes:
  assumes "2 \<le> length (shape x)"
  shows "\<exists>y. align_long_axis x (Some s) = Inr y \<and> 2 \<le> length (shape y)"
proof -
  obtain h w rest where s: "shape x = h # w # rest"
    using assms by (cases "shape x"; cases "tl (shape x)") auto
  obtain rot where rot: "np_rot90 x 3 = Inr rot" "shape rot = w # h # rest"
    using np_rot90_3[OF s] by blast
  show ?thesis
    using align_long_axis_cases[OF s, of s] rot s by auto
qed

lemma process_inner_align_fails:
  assumes "do_align_long_axis p" and "max_size p = Some s" and "width s < height s"
    and "img \<in> set images" and "shape img = h # w # rest" and "w < h"
  shows "\<exists>err. process_inner_align p images = Inl err"
    and "list_all (\<lambda>a. 2 \<le> length (shape a)) images \<Longrightarrow>
         process_inner_align p images = Inl AssertionError"
proof -
  have keep: "align_long_axis img (Some s) = Inr img"
    using align_long_axis_cases[OF assms(5), of s] assms(3,6) by auto
  have stop: "\<exists>err. assert_wider ys = Inl err"
    if m: "map_err (\<lambda>img. align_long_axis img (Some s)) images = Inr ys" for ys
  proof -
    obtain y where "y \<in> set ys" "align_long_axis img (Some s) = Inr y"
      using map_err_member[OF m assms(4)] by blast
    then have "img \<in> set ys" using keep by simp
    then show ?thesis using assert_wider_fails[OF _ assms(5,6)] by blast
  qed
  show "\<exists>err. process_inner_align p images = Inl err"
  proof (cases "map_err (\<lambda>img. align_long_axis img (Some s)) images")
    case (Inl err)
    then show ?thesis using assms(1,2) by (simp add: process_inner_align_def)
  next
    case (Inr ys)
    then obtain err where "assert_wider ys = Inl err" using stop by blast
    then show ?thesis using Inr assms(1,2) by (simp add: process_inner_align_def)
  qed
  show "process_inner_align p images = Inl AssertionError"
    if two: "list_all (\<lambda>a. 2 \<le> length (shape a)) images"
  proof -
    obtain ys where ys: "map_err (\<lambda>img. align_long_axis img (Some s)) images = Inr ys"
        "list_all (\<lambda>a. 2 \<le> length (shape a)) ys"
      using map_err_list_all[OF two, of "\<lambda>img. align_long_axis img (Some s)"
          "\<lambda>a. 2 \<le> length (shape a)"] align_long_axis_two_axes
      by blast
    obtain err where err: "assert_wider ys = Inl err" using stop[OF ys(1)] by blast
    then have "err = AssertionError" using assert_wider_error[OF ys(2)] by blast
    then show ?thesis using ys(1) err assms(1,2) by (simp add: process_inner_align_def)
  qed
qed

text \<open>
  C10. With \<^verbatim>\<open>align_long_axis\<close> enabled, a run of \<^verbatim>\<open>process_inner\<close> that returns has
  aligned every image and found each at least as wide as tall, whatever the target. So
  under a portrait target a batch that holds a portrait image never returns; when every
  array of the batch has three axes the exception is the AssertionError.
\<close>

theorem process_inner_portrait_target_rejects_portrait:
  assumes "do_align_long_axis p"
  shows "(process_inner e p images = Inr out \<longrightarrow>
            (\<exists>aligned. map_err (\<lambda>img. align_long_axis img (max_size p)) images = Inr aligned \<and>
               list_all (\<lambda>a. 2 \<le> length (shape a) \<and> shape a ! 0 \<le> shape a ! 1) aligned)) \<and>
         (max_size p = Some s \<and> width s < height s \<and> img \<in> set images \<and>
          shape img = h # w # rest \<and> w < h \<longrightarrow>
            (\<exists>err. process_inner e p images = Inl err) \<and>
            (list_all (\<lambda>a. 3 \<le> length (shape a)) images \<longrightarrow>
               process_inner e p images = Inl AssertionError))"
proof (intro conjI impI)
  assume "process_inner e p images = Inr out"
  then obtain a where "process_inner_align p images = Inr a"
    using process_inner_Inr_D by blast
  then obtain aligned u where
    al: "map_err (\<lambda>img. align_long_axis img (max_size p)) images = Inr aligned"
      "assert_wider aligned = Inr u"
    using assms by (auto simp: process_inner_align_def ebind_eq_Inr)
  then show "\<exists>aligned. map_err (\<lambda>img. align_long_axis img (max_size p)) images = Inr aligned \<and>
      list_all (\<lambda>a. 2 \<le> length (shape a) \<and> shape a ! 0 \<le> shape a ! 1) aligned"
    using assert_wider_Inr_D by blast
next
  assume c: "max_size p = Some s \<and> width s < height s \<and> img \<in> set images \<and>
      shape img = h # w # rest \<and> w < h"
  then obtain err where "process_inner_align p images = Inl err"
    using process_inner_align_fails(1)[OF assms, of s img images h w rest] by blast
  then show "\<exists>err. process_inner e p images = Inl err"
    by (rule process_inner_align_Inl)
next
  assume c: "max_size p = Some s \<and> width s < height s \<and> img \<in> set images \<and>
      shape img = h # w # rest \<and> w < h"
    and three: "list_all (\<lambda>a. 3 \<le> length (shape a)) images"
  have two: "list_all (\<lambda>a. 2 \<le> length (shape a)) images"
    using three by (auto simp: list_all_iff)
  have al: "process_inner_align p images = Inl AssertionError"
    using process_inner_align_fails(2)[OF assms _ _ _ _ _ two, of s img h w rest] c by blast
  obtain x xs where x: "images = x # xs" using c by (cases images) auto
  then have "3 \<le> length (shape x)" using three by simp
  then have "shape_at x 2 = Inr (shape x ! 2)" by (simp add: shape_at_def)
  then show "process_inner e p images = Inl AssertionError"
    using x al by (simp add: process_inner_def)
qed

theorem process_inner_portrait_target_rejects_portrait_witness:
  "process_inner probe_env (init (Some \<lparr>width = 1, height = 2\<rparr>) (Some True) None None None)
     [rgb_image, tall_image] = Inl AssertionError"
proof -
  let ?p = "init (Some \<lparr>width = 1, height = 2\<rparr>) (Some True) None None None"
  have a: "do_align_long_axis ?p" by (simp add: init_def)
  have b: "max_size ?p = Some \<lparr>width = 1, height = 2\<rparr> \<and>
      width \<lparr>width = 1, height = 2\<rparr> < height \<lparr>width = 1, height = 2\<rparr> \<and>
      tall_image \<in> set [rgb_image, tall_image] \<and> shape tall_image = 2 # 1 # [3] \<and> (1::nat) < 2"
    by (simp add: init_def tall_image_def)
  have c: "list_all (\<lambda>a. 3 \<le> length (shape a)) [rgb_image, tall_image]"
    by (simp add: rgb_image_def tall_image_def)
  show ?thesis
    using process_inner_portrait_target_rejects_portrait[OF a, of probe_env "[rgb_image, tall_image]" _
        "\<lparr>width = 1, height = 2\<rparr>" tall_image 2 1 "[3]"] b c
    by blast
qed

subsection \<open>Evaluating the pipeline on concrete batches\<close>

lemmas pipeline_defs =
  process_inner_def process_inner_align_def process_inner_resize_def process_inner_cast_def
  process_inner_pad_def process_inner_rescale_def process_inner_normalize_def
  numpy_resize_def cv2_resize_def np_transpose_def pad_image_def pad_image_padding_def
  get_image_size_def transformers_pad_def np_pad_def to_channel_dimension_format_def
  normalize_method_def transformers_normalize_def expand_stat_def rescale_def astype_def
  mul_scalar_def shape_at_def init_def known_interpolation_def INT_MAX_def floating_stores
  py_real_def Let_def

text \<open>
  C7. Line 62 asserts three channels on \<^verbatim>\<open>images[0]\<close> alone. A four-channel image in
  second place is processed to a \<open>(4, height, width)\<close> array when mean and std are scalars;
  with the default three-entry statistics it stops in \<^verbatim>\<open>normalize\<close> with a ValueError;
  only in first place does it meet the AssertionError.
\<close>

theorem process_inner_checks_first_image_only:
  "map_sum id (map shape)
     (process_inner e
        (init (Some \<lparr>width = 2, height = 2\<rparr>) None None (Some (Scalar (1 / 2))) (Some (Scalar (1 / 2))))
        [rgb_image, rgba_image]) = Inr [[3, 2, 2], [4, 2, 2]] \<and>
   process_inner e (init (Some \<lparr>width = 2, height = 2\<rparr>) None None None None)
     [rgb_image, rgba_image] = Inl ValueError \<and>
   process_inner e (init (Some \<lparr>width = 2, height = 2\<rparr>) None None None None)
     [rgba_image, rgb_image] = Inl AssertionError"
  by (simp add: pipeline_defs rgb_image_def rgba_image_def Resampling_BILINEAR_def
      IMAGENET_STANDARD_MEAN_def IMAGENET_STANDARD_STD_def)

subsection \<open>The constructor's defaults\<close>

text \<open>
  C3, as the code has it. Without a mean and a std the constructor takes
  \<^verbatim>\<open>IMAGENET_STANDARD_MEAN\<close> and \<^verbatim>\<open>IMAGENET_STANDARD_STD\<close> of transformers, both
  \<open>(0.5, 0.5, 0.5)\<close>; a mean or std given at construction replaces the default.
\<close>

theorem init_default_statistics:
  "image_mean (init sz al rf None sd) = IMAGENET_STANDARD_MEAN \<and>
   image_std (init sz al rf mn None) = IMAGENET_STANDARD_STD \<and>
   IMAGENET_STANDARD_MEAN = Seq [1 / 2, 1 / 2, 1 / 2] \<and>
   IMAGENET_STANDARD_STD = Seq [1 / 2, 1 / 2, 1 / 2] \<and>
   image_mean (init sz al rf (Some m) sd) = m \<and>
   image_std (init sz al rf mn (Some d)) = d"
  by (simp add: init_def IMAGENET_STANDARD_MEAN_def IMAGENET_STANDARD_STD_def)

text \<open>
  The defaults are not within 0.05 of \<open>(0.485, 0.456, 0.406)\<close> and
  \<open>(0.229, 0.224, 0.225)\<close>, which are the library's \<^verbatim>\<open>IMAGENET_DEFAULT\<close> pair.
\<close>

theorem init_default_statistics_not_imagenet_default:
  "\<not> approx_stat (image_mean (init None None None None None))
        [485 / 1000, 456 / 1000, 406 / 1000] (1 / 20) \<and>
   \<not> approx_stat (image_std (init None None None None None))
        [229 / 1000, 224 / 1000, 225 / 1000] (1 / 20) \<and>
   image_mean (init None None None None None) \<noteq> IMAGENET_DEFAULT_MEAN \<and>
   image_std (init None None None None None) \<noteq> IMAGENET_DEFAULT_STD \<and>
   approx_stat IMAGENET_DEFAULT_MEAN [485 / 1000, 456 / 1000, 406 / 1000] (1 / 20) \<and>
   approx_stat IMAGENET_DEFAULT_STD [229 / 1000, 224 / 1000, 225 / 1000] (1 / 20)"
  by (simp add: init_def approx_stat_def IMAGENET_STANDARD_MEAN_def IMAGENET_STANDARD_STD_def
      IMAGENET_DEFAULT_MEAN_def IMAGENET_DEFAULT_STD_def)

subsection \<open>The normalizer\<close>

text \<open>
  C9. The rescale factor defaults to \<open>1 / 255\<close>. The rescale step casts each sample to
  float64, multiplies it by the factor in float64 and only then narrows the product to
  float32. In a run that returns, the step works on the padded images and its result is
  what \<^verbatim>\<open>normalize\<close> standardizes, as a second, separate transform in float32.
\<close>

theorem rescale_in_double_between_pad_and_normalize:
  "rescale_factor (init sz al None mn sd) = 1 / 255 \<and>
   dtype (mul_scalar e (astype e img Float64) (rescale_factor p)) = Float64 \<and>
   dtype (rescale e p img) = Float32 \<and>
   (\<forall>idx. data (rescale e p img) idx =
      float_round e Float32
        (float_round e Float64 (float_round e Float64 (data img idx) * rescale_factor p))) \<and>
   (process_inner e p images = Inr out \<longrightarrow>
      (\<exists>a r padded.
         process_inner_align p images = Inr a \<and> process_inner_resize e p a = Inr r \<and>
         process_inner_pad e p (process_inner_cast e r) = Inr padded \<and>
         list_all2
           (\<lambda>x y. normalize_method e (rescale e p x) (image_mean p) (image_std p) None FIRST = Inr y \<and>
              (\<exists>ms ss. expand_stat (image_mean p) (shape x ! 0) = Inr ms \<and>
                 expand_stat (image_std p) (shape x ! 0) = Inr ss \<and>
                 (\<forall>idx. data y idx =
                    float_round e Float32
                      (float_round e Float32
                         (data (rescale e p x) idx - float_round e Float32 (ms ! (idx ! 0)))
                       / float_round e Float32 (ss ! (idx ! 0))))))
           padded out))"
proof -
  have d: "rescale_factor (init sz al None mn sd) = 1 / 255" by (simp add: init_def)
  have run: "\<exists>a r padded.
         process_inner_align p images = Inr a \<and> process_inner_resize e p a = Inr r \<and>
         process_inner_pad e p (process_inner_cast e r) = Inr padded \<and>
         list_all2
           (\<lambda>x y. normalize_method e (rescale e p x) (image_mean p) (image_std p) None FIRST = Inr y \<and>
              (\<exists>ms ss. expand_stat (image_mean p) (shape x ! 0) = Inr ms \<and>
                 expand_stat (image_std p) (shape x ! 0) = Inr ss \<and>
                 (\<forall>idx. data y idx =
                    float_round e Float32
                      (float_round e Float32
                         (data (rescale e p x) idx - float_round e Float32 (ms ! (idx ! 0)))
                       / float_round e Float32 (ss ! (idx ! 0))))))
           padded out"
    if ok: "process_inner e p images = Inr out"
  proof -
    obtain a r pd where s: "process_inner_align p images = Inr a"
        "process_inner_resize e p a = Inr r"
        "process_inner_pad e p (process_inner_cast e r) = Inr pd"
        "process_inner_normalize e p (process_inner_rescale e p pd) = Inr out"
      using process_inner_Inr_D[OF ok] by blast
    have l: "list_all2
        (\<lambda>x y. normalize_method e (rescale e p x) (image_mean p) (image_std p) None FIRST = Inr y)
        pd out"
      using s(4)
      by (simp add: process_inner_normalize_def process_inner_rescale_def map_err_Inr_iff
          list_all2_map1)
    have step: "\<exists>ms ss. expand_stat (image_mean p) (shape x ! 0) = Inr ms \<and>
                 expand_stat (image_std p) (shape x ! 0) = Inr ss \<and>
                 (\<forall>idx. data y idx =
                    float_round e Float32
                      (float_round e Float32
                         (data (rescale e p x) idx - float_round e Float32 (ms ! (idx ! 0)))
                       / float_round e Float32 (ss ! (idx ! 0))))"
      if n: "normalize_method e (rescale e p x) (image_mean p) (image_std p) None FIRST = Inr y"
      for x y
    proof -
      obtain c h w ms ss where q: "shape (rescale e p x) = [c, h, w]"
          "expand_stat (image_mean p) c = Inr ms" "expand_stat (image_std p) c = Inr ss"
          "\<forall>idx. data y idx =
              float_round e Float32
                (float_round e Float32
                   (data (rescale e p x) idx - float_round e Float32 (ms ! (idx ! 0)))
                 / float_round e Float32 (ss ! (idx ! 0)))"
        using normalize_method_Inr_D[OF n rescale_fields(2)] by blast
      have "shape x ! 0 = c" using q(1) by (simp add: rescale_fields)
      then show ?thesis using q(2,3,4) by blast
    qed
    have "list_all2
           (\<lambda>x y. normalize_method e (rescale e p x) (image_mean p) (image_std p) None FIRST = Inr y \<and>
              (\<exists>ms ss. expand_stat (image_mean p) (shape x ! 0) = Inr ms \<and>
                 expand_stat (image_std p) (shape x ! 0) = Inr ss \<and>
                 (\<forall>idx. data y idx =
                    float_round e Float32
                      (float_round e Float32
                         (data (rescale e p x) idx - float_round e Float32 (ms ! (idx ! 0)))
                       / float_round e Float32 (ss ! (idx ! 0))))))
           pd out"
      using l by (rule list_all2_mono) (use step in blast)
    then show ?thesis using s(1,2,3) by blast
  qed
  show ?thesis
    using d run rescale_fields(2,3,4) by blast
qed

theorem rescale_in_double_between_pad_and_normalize_witness:
  "rescale_factor (init None None None None None) = 1 / 255 \<and>
   dtype (rescale probe_env (init (Some \<lparr>width = 2, height = 2\<rparr>) None None None None) chw_image) =
     Float32 \<and>
   data (rescale probe_env (init (Some \<lparr>width = 2, height = 2\<rparr>) None None None None) chw_image)
     [0, 0, 0] = 7 / 255 \<and>
   (\<exists>out r padded.
      process_inner probe_env (init (Some \<lparr>width = 2, height = 2\<rparr>) None None None None)
        [rgb_image] = Inr out \<and>
      process_inner_pad probe_env (init (Some \<lparr>width = 2, height = 2\<rparr>) None None None None)
        (process_inner_cast probe_env r) = Inr padded \<and>
      length padded = length out)"
proof -
  let ?p = "init (Some \<lparr>width = 2, height = 2\<rparr>) None None None None"
  have "\<not> isl (process_inner probe_env ?p [rgb_image])"
    by (simp add: pipeline_defs rgb_image_def probe_env_def Resampling_BILINEAR_def
        IMAGENET_STANDARD_MEAN_def IMAGENET_STANDARD_STD_def)
  then obtain out where out: "process_inner probe_env ?p [rgb_image] = Inr out"
    by (cases "process_inner probe_env ?p [rgb_image]") auto
  note t = rescale_in_double_between_pad_and_normalize[where sz = None and al = None
      and mn = None and sd = None and e = probe_env and img = chw_image and p = ?p
      and images = "[rgb_image]" and out = out]
  have v: "data (rescale probe_env ?p chw_image) [0, 0, 0] = 7 / 255"
    using t by (simp add: probe_env_def chw_image_def init_def)
  obtain r padded where pd:
      "process_inner_pad probe_env ?p (process_inner_cast probe_env r) = Inr padded"
      "length padded = length out"
    using t out by (auto dest: list_all2_lengthD)
  show ?thesis using t out v pd by blast
qed

subsection \<open>The resizer\<close>

lemma env_cong_arrays:
  assumes "float_round e' = float_round e"
  shows "astype e' = astype e" "mul_scalar e' = mul_scalar e" "rescale e' = rescale e"
    "np_pad e' = np_pad e" "transformers_pad e' = transformers_pad e"
    "pad_image e' = pad_image e" "transformers_normalize e' = transformers_normalize e"
    "normalize_method e' = normalize_method e"
proof -
  show a: "astype e' = astype e"
    by (intro ext, unfold astype_def assms, rule refl)
  show m: "mul_scalar e' = mul_scalar e"
    by (intro ext, unfold mul_scalar_def assms, rule refl)
  show "rescale e' = rescale e"
    by (intro ext, unfold rescale_def a m, rule refl)
  show p: "np_pad e' = np_pad e"
    by (intro ext, unfold np_pad_def assms, rule refl)
  show t: "transformers_pad e' = transformers_pad e"
    by (intro ext, unfold transformers_pad_def p, rule refl)
  show "pad_image e' = pad_image e"
    by (intro ext, unfold pad_image_def t, rule refl)
  show n: "transformers_normalize e' = transformers_normalize e"
    by (intro ext, unfold transformers_normalize_def a assms, rule refl)
  show "normalize_method e' = normalize_method e"
    by (intro ext, unfold normalize_method_def n, rule refl)
qed

lemma env_cong_resize:
  assumes "cv2_resample e' k = cv2_resample e k"
  shows "numpy_resize e' img sz (Some k) = numpy_resize e img sz (Some k)"
  by (unfold numpy_resize_def cv2_resize_def Let_def option.case assms, rule refl)

lemma env_cong_process_inner:
  assumes "float_round e' = float_round e"
    and "RECOGNITION_PAD_VALUE e' = RECOGNITION_PAD_VALUE e"
    and "cv2_resample e' (resample p) = cv2_resample e (resample p)"
  shows "process_inner e' p images = process_inner e p images"
proof -
  note c = env_cong_arrays[OF assms(1)]
  have r: "process_inner_resize e' p = process_inner_resize e p"
    by (intro ext, unfold process_inner_resize_def env_cong_resize[OF assms(3)], rule refl)
  have k: "process_inner_cast e' = process_inner_cast e"
    by (intro ext, unfold process_inner_cast_def c, rule refl)
  have d: "process_inner_pad e' p = process_inner_pad e p"
    by (intro ext, unfold process_inner_pad_def c assms(2), rule refl)
  have s: "process_inner_rescale e' p = process_inner_rescale e p"
    by (intro ext, unfold process_inner_rescale_def c, rule refl)
  have n: "process_inner_normalize e' p = process_inner_normalize e p"
    by (intro ext, unfold process_inner_normalize_def c, rule refl)
  show ?thesis
    by (unfold process_inner_def r k d s n, rule refl)
qed

lemma numpy_resize_Inr_D:
  assumes "numpy_resize e x sz (Some f) = Inr y"
  shows "\<exists>s h w c. sz = Some s \<and> shape x = [h, w, c] \<and> 0 < width s \<and> 0 < height s \<and>
           shape y = [c, nat (height s), nat (width s)] \<and> dtype y = dtype x \<and>
           (\<forall>k i j. data y [k, i, j] =
              cv2_resample e f x (nat (height s), nat (width s)) [i, j, k])"
proof -
  obtain s where s: "sz = Some s"
    using assms by (cases sz) (simp_all add: numpy_resize_def)
  obtain r where r: "cv2_resize e x (width s, height s) f = Inr r"
      "np_transpose r [2, 0, 1] = Inr y"
    using assms s by (auto simp: numpy_resize_def Let_def ebind_eq_Inr)
  have three: "length (shape r) = 3"
    using r(2) by (auto simp: np_transpose_def Let_def split: if_splits)
  have pos: "0 < width s" "0 < height s"
    using r(1) by (auto simp: cv2_resize_def split: if_splits)
  have "\<exists>h w c. shape x = [h, w, c] \<and>
      r = \<lparr>shape = [nat (height s), nat (width s), c], dtype = dtype x,
           data = cv2_resample e f x (nat (height s), nat (width s))\<rparr>"
    using r(1) three
    by (auto simp: cv2_resize_def Let_def split: if_splits list.splits)
  then obtain h w c where q: "shape x = [h, w, c]"
      "r = \<lparr>shape = [nat (height s), nat (width s), c], dtype = dtype x,
           data = cv2_resample e f x (nat (height s), nat (width s))\<rparr>"
    by blast
  have "shape r = [nat (height s), nat (width s), c]" using q(2) by simp
  from np_transpose_201[OF this] r(2) q(2)
  have "y = r\<lparr>shape := [c, nat (height s), nat (width s)],
              data := (\<lambda>idx. data r [idx ! 1, idx ! 2, idx ! 0])\<rparr>"
    by simp
  then show ?thesis using s q pos by simp
qed

lemma pipeline_sample:
  assumes rz: "numpy_resize e x (Some s) (Some f) = Inr y"
    and pd: "pad_image e (astype e y Float32) (Some s) None FIRST v = Inr q"
    and nm: "normalize_method e (rescale e p q) mean std None FIRST = Inr z"
  shows "\<exists>ms ss. expand_stat mean (shape x ! 2) = Inr ms \<and>
           expand_stat std (shape x ! 2) = Inr ss \<and>
           shape z = [shape x ! 2, nat (height s), nat (width s)] \<and> dtype z = Float32 \<and>
           (\<forall>k i j. k < shape x ! 2 \<and> i < nat (height s) \<and> j < nat (width s) \<longrightarrow>
              data z [k, i, j] =
                float_round e Float32
                  (float_round e Float32
                     (float_round e Float32
                        (float_round e Float64
                           (float_round e Float64
                              (float_round e Float32
                                 (cv2_resample e f x (nat (height s), nat (width s)) [i, j, k]))
                            * rescale_factor p))
                      - float_round e Float32 (ms ! k))
                   / float_round e Float32 (ss ! k)))"
proof -
  obtain h w c where y: "shape x = [h, w, c]" "0 < width s" "0 < height s"
      "shape y = [c, nat (height s), nat (width s)]"
      "\<forall>k i j. data y [k, i, j] = cv2_resample e f x (nat (height s), nat (width s)) [i, j, k]"
    using numpy_resize_Inr_D[OF rz] by auto
  let ?y = "astype e y Float32"
  have sy: "shape ?y = [c, nat (height s), nat (width s)]" "dtype ?y = Float32"
    using y(4) by (simp_all add: astype_fields)
  have st: "\<not> constant_overflows (dtype ?y) v"
    using sy(2) by (simp add: floating_stores)
  have q: "shape q = [c, nat (height s), nat (width s)]" "dtype q = Float32"
      "\<forall>k i j. i < nat (height s) \<and> j < nat (width s) \<and> k < c \<longrightarrow> data q [k, i, j] = data ?y [k, i, j]"
    using pad_image_exact[OF sy(1) y(2,3) st, of e] pd sy by auto
  obtain c' h' w' ms ss where n: "shape (rescale e p q) = [c', h', w']"
      "expand_stat mean c' = Inr ms" "expand_stat std c' = Inr ss"
      "shape z = shape (rescale e p q)" "dtype z = Float32"
      "\<forall>idx. data z idx =
          float_round e Float32
            (float_round e Float32 (data (rescale e p q) idx - float_round e Float32 (ms ! (idx ! 0)))
               / float_round e Float32 (ss ! (idx ! 0)))"
    using normalize_method_Inr_D[OF nm rescale_fields(2)] by blast
  have c: "c' = c" using n(1) q(1) by (simp add: rescale_fields)
  have sample: "data z [k, i, j] =
      float_round e Float32
        (float_round e Float32
           (float_round e Float32
              (float_round e Float64
                 (float_round e Float64
                    (float_round e Float32
                       (cv2_resample e f x (nat (height s), nat (width s)) [i, j, k]))
                  * rescale_factor p))
            - float_round e Float32 (ms ! k))
         / float_round e Float32 (ss ! k))"
    if "k < c" "i < nat (height s)" "j < nat (width s)" for k i j
  proof -
    have "data q [k, i, j] = float_round e Float32 (data y [k, i, j])"
      using q(3) that by (simp add: astype_fields)
    then show ?thesis using n(6) y(5) by (simp add: rescale_fields)
  qed
  show ?thesis
    using n(2,3,4,5) c y(1) q(1) sample by (simp add: rescale_fields)
qed

lemma process_inner_resize_Inr_D:
  assumes "process_inner_resize e p a = Inr r"
  shows "r \<noteq> [] \<and>
         list_all2 (\<lambda>x y. numpy_resize e x (max_size p) (Some (resample p)) = Inr y) a r"
proof -
  obtain r' where m: "map_err (\<lambda>img. numpy_resize e img (max_size p) (Some (resample p))) a = Inr r'"
    and c: "(case r' of [] \<Rightarrow> Inl IndexError
             | first # _ \<Rightarrow>
                 ebind (shape_at first 0) (\<lambda>c. if c = 3 then Inr r' else Inl AssertionError)) = Inr r"
    using assms by (auto simp: process_inner_resize_def ebind_eq_Inr)
  have "r' \<noteq> [] \<and> r' = r"
  proof (cases r')
    case Nil
    then show ?thesis using c by simp
  next
    case (Cons y ys)
    then show ?thesis using c by (auto simp: ebind_eq_Inr split: if_splits)
  qed
  then have "r \<noteq> []" "r' = r" by auto
  then show ?thesis using m by (simp add: map_err_Inr_iff)
qed

lemma process_inner_samples:
  assumes "process_inner e p images = Inr out"
  shows "\<exists>a t. process_inner_align p images = Inr a \<and> max_size p = Some t \<and>
           list_all2
             (\<lambda>x z. \<exists>ms ss. expand_stat (image_mean p) (shape x ! 2) = Inr ms \<and>
                expand_stat (image_std p) (shape x ! 2) = Inr ss \<and>
                shape z = [shape x ! 2, nat (height t), nat (width t)] \<and> dtype z = Float32 \<and>
                (\<forall>k i j. k < shape x ! 2 \<and> i < nat (height t) \<and> j < nat (width t) \<longrightarrow>
                   data z [k, i, j] =
                     float_round e Float32
                       (float_round e Float32
                          (float_round e Float32
                             (float_round e Float64
                                (float_round e Float64
                                   (float_round e Float32
                                      (cv2_resample e (resample p) x
                                         (nat (height t), nat (width t)) [i, j, k]))
                                 * rescale_factor p))
                           - float_round e Float32 (ms ! k))
                        / float_round e Float32 (ss ! k))))
             a out"
proof -
  obtain a r pd where s: "process_inner_align p images = Inr a"
      "process_inner_resize e p a = Inr r"
      "process_inner_pad e p (process_inner_cast e r) = Inr pd"
      "process_inner_normalize e p (process_inner_rescale e p pd) = Inr out"
    using process_inner_Inr_D[OF assms] by blast
  have rz: "r \<noteq> []"
      "list_all2 (\<lambda>x y. numpy_resize e x (max_size p) (Some (resample p)) = Inr y) a r"
    using process_inner_resize_Inr_D[OF s(2)] by simp_all
  obtain x0 y0 where "numpy_resize e x0 (max_size p) (Some (resample p)) = Inr y0"
    using rz by (cases r; cases a) auto
  then obtain t where t: "max_size p = Some t"
    using numpy_resize_Inr_D by blast
  have pdl: "list_all2
      (\<lambda>y q. pad_image e (astype e y Float32) (Some t) None FIRST (RECOGNITION_PAD_VALUE e) = Inr q)
      r pd"
    using s(3) t
    by (simp add: process_inner_pad_def process_inner_cast_def map_err_Inr_iff list_all2_map1)
  have nml: "list_all2
      (\<lambda>q z. normalize_method e (rescale e p q) (image_mean p) (image_std p) None FIRST = Inr z)
      pd out"
    using s(4)
    by (simp add: process_inner_normalize_def process_inner_rescale_def map_err_Inr_iff
        list_all2_map1)
  have mid: "list_all2
      (\<lambda>x q. \<exists>y. numpy_resize e x (Some t) (Some (resample p)) = Inr y \<and>
         pad_image e (astype e y Float32) (Some t) None FIRST (RECOGNITION_PAD_VALUE e) = Inr q)
      a pd"
    using rz(2) pdl unfolding t by (rule list_all2_trans[rotated]) blast
  have "list_all2
             (\<lambda>x z. \<exists>ms ss. expand_stat (image_mean p) (shape x ! 2) = Inr ms \<and>
                expand_stat (image_std p) (shape x ! 2) = Inr ss \<and>
                shape z = [shape x ! 2, nat (height t), nat (width t)] \<and> dtype z = Float32 \<and>
                (\<forall>k i j. k < shape x ! 2 \<and> i < nat (height t) \<and> j < nat (width t) \<longrightarrow>
                   data z [k, i, j] =
                     float_round e Float32
                       (float_round e Float32
                          (float_round e Float32
                             (float_round e Float64
                                (float_round e Float64
                                   (float_round e Float32
                                      (cv2_resample e (resample p) x
                                         (nat (height t), nat (width t)) [i, j, k]))
                                 * rescale_factor p))
                           - float_round e Float32 (ms ! k))
                        / float_round e Float32 (ss ! k))))
             a out"
    using mid nml
  proof (rule list_all2_trans[rotated])
    fix x q z
    assume "\<exists>y. numpy_resize e x (Some t) (Some (resample p)) = Inr y \<and>
         pad_image e (astype e y Float32) (Some t) None FIRST (RECOGNITION_PAD_VALUE e) = Inr q"
      and n: "normalize_method e (rescale e p q) (image_mean p) (image_std p) None FIRST = Inr z"
    then obtain y where y: "numpy_resize e x (Some t) (Some (resample p)) = Inr y"
        "pad_image e (astype e y Float32) (Some t) None FIRST (RECOGNITION_PAD_VALUE e) = Inr q"
      by blast
    show "\<exists>ms ss. expand_stat (image_mean p) (shape x ! 2) = Inr ms \<and>
                expand_stat (image_std p) (shape x ! 2) = Inr ss \<and>
                shape z = [shape x ! 2, nat (height t), nat (width t)] \<and> dtype z = Float32 \<and>
                (\<forall>k i j. k < shape x ! 2 \<and> i < nat (height t) \<and> j < nat (width t) \<longrightarrow>
                   data z [k, i, j] =
                     float_round e Float32
                       (float_round e Float32
                          (float_round e Float32
                             (float_round e Float64
                                (float_round e Float64
                                   (float_round e Float32
                                      (cv2_resample e (resample p) x
                                         (nat (height t), nat (width t)) [i, j, k]))
                                 * rescale_factor p))
                           - float_round e Float32 (ms ! k))
                        / float_round e Float32 (ss ! k)))"
      by (rule pipeline_sample[OF y n])
  qed
  then show ?thesis using s(1) t by blast
qed

text \<open>
  C2, as the code has it. \<^verbatim>\<open>numpy_resize\<close> returns an array of exactly the target height
  and width, channel first, whose samples are those of the kernel of its interpolation
  argument, Lanczos when the argument is left out. The pipeline always passes the
  processor's \<^verbatim>\<open>resample\<close>, which the constructor sets to PIL's BILINEAR constant: in every
  run of \<^verbatim>\<open>process_inner\<close> that returns, each output has the target height and width and
  each of its samples is the sample of that flag's kernel on the aligned image, cast to
  float32, rescaled and normalized; and the output depends on the resampler through that
  flag's kernel alone.
\<close>

theorem pipeline_resamples_with_configured_flag:
  "resample (init sz al rf mn sd) = Resampling_BILINEAR \<and>
   (shape img = [h, w, 3] \<and> 0 < h \<and> 0 < w \<and> int h \<le> INT_MAX \<and> int w \<le> INT_MAX \<and>
    0 < width s \<and> width s \<le> INT_MAX \<and> 0 < height s \<and> height s \<le> INT_MAX \<and>
    known_interpolation (case flag of None \<Rightarrow> INTER_LANCZOS4 | Some f \<Rightarrow> f) \<longrightarrow>
      (\<exists>r. numpy_resize e img (Some s) flag = Inr r \<and>
           shape r = [3, nat (height s), nat (width s)] \<and>
           (\<forall>k i j. data r [k, i, j] =
              cv2_resample e (case flag of None \<Rightarrow> INTER_LANCZOS4 | Some f \<Rightarrow> f) img
                (nat (height s), nat (width s)) [i, j, k]))) \<and>
   (process_inner e p images = Inr out \<longrightarrow>
      (\<exists>a t. process_inner_align p images = Inr a \<and> max_size p = Some t \<and>
         list_all2
           (\<lambda>x z. \<exists>ms ss. expand_stat (image_mean p) (shape x ! 2) = Inr ms \<and>
              expand_stat (image_std p) (shape x ! 2) = Inr ss \<and>
              shape z = [shape x ! 2, nat (height t), nat (width t)] \<and> dtype z = Float32 \<and>
              (\<forall>k i j. k < shape x ! 2 \<and> i < nat (height t) \<and> j < nat (width t) \<longrightarrow>
                 data z [k, i, j] =
                   float_round e Float32
                     (float_round e Float32
                        (float_round e Float32
                           (float_round e Float64
                              (float_round e Float64
                                 (float_round e Float32
                                    (cv2_resample e (resample p) x
                                       (nat (height t), nat (width t)) [i, j, k]))
                               * rescale_factor p))
                         - float_round e Float32 (ms ! k))
                      / float_round e Float32 (ss ! k))))
           a out)) \<and>
   (float_round e' = float_round e \<and> RECOGNITION_PAD_VALUE e' = RECOGNITION_PAD_VALUE e \<and>
    cv2_resample e' (resample p) = cv2_resample e (resample p) \<longrightarrow>
      process_inner e' p images = process_inner e p images)"
proof (intro conjI impI)
  show "resample (init sz al rf mn sd) = Resampling_BILINEAR" by (simp add: init_def)
next
  assume a: "shape img = [h, w, 3] \<and> 0 < h \<and> 0 < w \<and> int h \<le> INT_MAX \<and> int w \<le> INT_MAX \<and>
    0 < width s \<and> width s \<le> INT_MAX \<and> 0 < height s \<and> height s \<le> INT_MAX \<and>
    known_interpolation (case flag of None \<Rightarrow> INTER_LANCZOS4 | Some f \<Rightarrow> f)"
  then have a': "shape img = [h, w, 3]" "0 < h" "0 < w" "0 < width s" "0 < height s"
      "width s \<le> INT_MAX" "height s \<le> INT_MAX"
      "known_interpolation (case flag of None \<Rightarrow> INTER_LANCZOS4 | Some f \<Rightarrow> f)"
    by simp_all
  have "numpy_resize e img (Some s) flag =
      Inr \<lparr>shape = [3, nat (height s), nat (width s)], dtype = dtype img,
           data = (\<lambda>idx. cv2_resample e (case flag of None \<Rightarrow> INTER_LANCZOS4 | Some i \<Rightarrow> i)
                             img (nat (height s), nat (width s)) [idx ! 1, idx ! 2, idx ! 0])\<rparr>"
    by (rule numpy_resize_rgb[OF a'(1,2,3) _ _ a'(4,5,6,7,8)]) simp_all
  then show "\<exists>r. numpy_resize e img (Some s) flag = Inr r \<and>
           shape r = [3, nat (height s), nat (width s)] \<and>
           (\<forall>k i j. data r [k, i, j] =
              cv2_resample e (case flag of None \<Rightarrow> INTER_LANCZOS4 | Some f \<Rightarrow> f) img
                (nat (height s), nat (width s)) [i, j, k])"
    by simp
next
  assume "process_inner e p images = Inr out"
  then show "\<exists>a t. process_inner_align p images = Inr a \<and> max_size p = Some t \<and>
         list_all2
           (\<lambda>x z. \<exists>ms ss. expand_stat (image_mean p) (shape x ! 2) = Inr ms \<and>
              expand_stat (image_std p) (shape x ! 2) = Inr ss \<and>
              shape z = [shape x ! 2, nat (height t), nat (width t)] \<and> dtype z = Float32 \<and>
              (\<forall>k i j. k < shape x ! 2 \<and> i < nat (height t) \<and> j < nat (width t) \<longrightarrow>
                 data z [k, i, j] =
                   float_round e Float32
                     (float_round e Float32
                        (float_round e Float32
                           (float_round e Float64
                              (float_round e Float64
                                 (float_round e Float32
                                    (cv2_resample e (resample p) x
                                       (nat (height t), nat (width t)) [i, j, k]))
                               * rescale_factor p))
                         - float_round e Float32 (ms ! k))
                      / float_round e Float32 (ss ! k))))
           a out"
    by (rule process_inner_samples)
next
  assume "float_round e' = float_round e \<and> RECOGNITION_PAD_VALUE e' = RECOGNITION_PAD_VALUE e \<and>
    cv2_resample e' (resample p) = cv2_resample e (resample p)"
  then show "process_inner e' p images = process_inner e p images"
    using env_cong_process_inner by blast
qed

theorem pipeline_resamples_with_configured_flag_witness:
  "resample (init None None None None None) = Resampling_BILINEAR \<and>
   (\<exists>r. numpy_resize probe_env rgb_image (Some \<lparr>width = 4, height = 3\<rparr>) None = Inr r \<and>
        shape r = [3, 3, 4] \<and> data r [0, 0, 0] = of_int INTER_LANCZOS4) \<and>
   (\<exists>z. process_inner probe_env (init (Some \<lparr>width = 2, height = 2\<rparr>) None None None None)
          [rgb_image] = Inr [z] \<and>
        shape z = [3, 2, 2] \<and>
        data z [0, 0, 0] = (of_int Resampling_BILINEAR * (1 / 255) - 1 / 2) / (1 / 2)) \<and>
   process_inner lanczos_blind_env (init (Some \<lparr>width = 2, height = 2\<rparr>) None None None None)
     [rgb_image] =
   process_inner probe_env (init (Some \<lparr>width = 2, height = 2\<rparr>) None None None None) [rgb_image]"
proof -
  let ?p = "init (Some \<lparr>width = 2, height = 2\<rparr>) None None None None"
  have "\<not> isl (process_inner probe_env ?p [rgb_image])"
    by (simp add: pipeline_defs rgb_image_def probe_env_def Resampling_BILINEAR_def
        IMAGENET_STANDARD_MEAN_def IMAGENET_STANDARD_STD_def)
  then obtain out where out: "process_inner probe_env ?p [rgb_image] = Inr out"
    by (cases "process_inner probe_env ?p [rgb_image]") auto
  note t = pipeline_resamples_with_configured_flag[where sz = None and al = None and rf = None
      and mn = None and sd = None and img = rgb_image and h = 2 and w = 2
      and s = "\<lparr>width = 4, height = 3\<rparr>" and e = probe_env and flag = None
      and e' = lanczos_blind_env and p = ?p and images = "[rgb_image]" and out = out]
  have a: "shape rgb_image = [2, 2, 3]" by (simp add: rgb_image_def)
  have k: "known_interpolation INTER_LANCZOS4" "(2::int) \<le> INT_MAX" "(4::int) \<le> INT_MAX"
      "(3::int) \<le> INT_MAX"
    by (simp_all add: known_interpolation_def INTER_LANCZOS4_def INT_MAX_def)
  have b: "float_round lanczos_blind_env = float_round probe_env \<and>
      RECOGNITION_PAD_VALUE lanczos_blind_env = RECOGNITION_PAD_VALUE probe_env \<and>
      cv2_resample lanczos_blind_env (resample ?p) = cv2_resample probe_env (resample ?p)"
    by (simp add: lanczos_blind_env_def probe_env_def init_def Resampling_BILINEAR_def
        INTER_LANCZOS4_def)
  obtain r where r: "numpy_resize probe_env rgb_image (Some \<lparr>width = 4, height = 3\<rparr>) None = Inr r"
      "shape r = [3, 3, 4]"
      "\<forall>k i j. data r [k, i, j] =
          cv2_resample probe_env INTER_LANCZOS4 rgb_image (3, 4) [i, j, k]"
    using t a k by auto
  have lz: "data r [0, 0, 0] = of_int INTER_LANCZOS4"
    using r(3) by (simp add: probe_env_def)
  have off: "process_inner_align ?p [rgb_image] = Inr [rgb_image]"
      "max_size ?p = Some \<lparr>width = 2, height = 2\<rparr>"
    by (simp_all add: process_inner_align_def init_def)
  obtain z ms ss where z: "out = [z]"
      "expand_stat (image_mean ?p) (shape rgb_image ! 2) = Inr ms"
      "expand_stat (image_std ?p) (shape rgb_image ! 2) = Inr ss"
      "shape z = [shape rgb_image ! 2, 2, 2]"
      "\<forall>k i j. k < shape rgb_image ! 2 \<and> i < 2 \<and> j < 2 \<longrightarrow>
         data z [k, i, j] =
           float_round probe_env Float32
             (float_round probe_env Float32
                (float_round probe_env Float32
                   (float_round probe_env Float64
                      (float_round probe_env Float64
                         (float_round probe_env Float32
                            (cv2_resample probe_env (resample ?p) rgb_image (2, 2) [i, j, k]))
                       * rescale_factor ?p))
                 - float_round probe_env Float32 (ms ! k))
              / float_round probe_env Float32 (ss ! k))"
    using t out off by (auto simp: list_all2_Cons1)
  have "ms = [1 / 2, 1 / 2, 1 / 2]"
    using z(2) a by (simp add: init_def expand_stat_def IMAGENET_STANDARD_MEAN_def)
  moreover have "ss = [1 / 2, 1 / 2, 1 / 2]"
    using z(3) a by (simp add: init_def expand_stat_def IMAGENET_STANDARD_STD_def)
  ultimately have st: "ms = [1 / 2, 1 / 2, 1 / 2]" "ss = [1 / 2, 1 / 2, 1 / 2]"
    by simp_all
  have "data z [0, 0, 0] = (of_int Resampling_BILINEAR * (1 / 255) - 1 / 2) / (1 / 2)"
    using z(5)[rule_format, of 0 0 0] a st
    by (simp add: probe_env_def init_def)
  moreover have "shape z = [3, 2, 2]" using z(4) a by simp
  ultimately show ?thesis using t b r(1,2) lz out z(1) by blast
qed

text \<open>
  With a resampler that answers with the flag it is called with: the sample the pipeline
  returns is the one of flag 2 (\<^verbatim>\<open>cv2.INTER_CUBIC\<close>), carried through rescale and
  normalize, and not the one of \<^verbatim>\<open>cv2.INTER_LANCZOS4\<close>.
\<close>

theorem pipeline_kernel_is_not_lanczos:
  "\<not> isl (process_inner probe_env (init (Some \<lparr>width = 2, height = 2\<rparr>) None None None None)
          [rgb_image]) \<and>
   data (hd (projr (process_inner probe_env
          (init (Some \<lparr>width = 2, height = 2\<rparr>) None None None None) [rgb_image]))) [0, 0, 0] =
     (of_int INTER_CUBIC / 255 - 1 / 2) / (1 / 2) \<and>
   data (hd (projr (process_inner probe_env
          (init (Some \<lparr>width = 2, height = 2\<rparr>) None None None None) [rgb_image]))) [0, 0, 0] \<noteq>
     (of_int INTER_LANCZOS4 / 255 - 1 / 2) / (1 / 2) \<and>
   resample (init (Some \<lparr>width = 2, height = 2\<rparr>) None None None None) \<noteq> INTER_LANCZOS4"
  by (simp add: pipeline_defs rgb_image_def probe_env_def Resampling_BILINEAR_def INTER_CUBIC_def
      INTER_LANCZOS4_def IMAGENET_STANDARD_MEAN_def IMAGENET_STANDARD_STD_def)

end
